theory Spec2Isabelle
  imports Main "HOL-Library.Word"
begin

unbundle bit_operations_syntax

section \<open>clwind: the styled string builder of mod.ts\<close>

text \<open>
  A shallow embedding of \<^verbatim>\<open>src/mod.ts\<close>. A JavaScript string is a \<open>string\<close> whose
  characters are read as code units below 256. A JavaScript \<open>number\<close> is one of \<open>NaN\<close>,
  the two infinities, or an integer-valued number \<open>Finite n\<close>, where \<open>n\<close> is the value of the
  number; numbers with a fractional part are outside the model. A \<open>throw\<close> is the \<open>Inl\<close> branch of a sum.
\<close>

subsection \<open>Numbers and the host functions the module calls\<close>

datatype number = NaN | PosInfinity | NegInfinity | Finite int

datatype error = InvalidColorCode | InvalidHexColor

text \<open>The number of binary digits of a natural number.\<close>

fun bitLength :: "nat \<Rightarrow> nat" where
  "bitLength n = (if n = 0 then 0 else Suc (bitLength (n div 2)))"

declare bitLength.simps [simp del]

text \<open>
  The Number value of a mathematical integer: round to a 53-bit significand, ties to even,
  and overflow to an infinity from \<open>2 ^ 1024\<close> on (a value of more than 1024 binary digits).
\<close>

definition toNumber :: "int \<Rightarrow> number" where
  "toNumber n =
     (let a = nat \<bar>n\<bar>;
          k = bitLength a - 53;
          q = a div 2 ^ k;
          r = a mod 2 ^ k;
          q' = (if 2 ^ k < 2 * r \<or> (2 * r = 2 ^ k \<and> odd q) then q + 1 else q);
          v = q' * 2 ^ k
      in if 1024 < bitLength v then (if n < 0 then NegInfinity else PosInfinity)
         else Finite (if n < 0 then - int v else int v))"

text \<open>\<open>StrWhiteSpaceChar\<close>, among the code units below 256.\<close>

definition isWhiteSpace :: "char \<Rightarrow> bool" where
  "isWhiteSpace c = ((of_char c :: nat) \<in> {9, 10, 11, 12, 13, 32, 160})"

definition digitValue :: "char \<Rightarrow> nat option" where
  "digitValue c =
     (let n = (of_char c :: nat)
      in if 48 \<le> n \<and> n \<le> 57 then Some (n - 48)
         else if 97 \<le> n \<and> n \<le> 122 then Some (n - 87)
         else if 65 \<le> n \<and> n \<le> 90 then Some (n - 55)
         else None)"

definition isRadixDigit :: "nat \<Rightarrow> char \<Rightarrow> bool" where
  "isRadixDigit R c = (case digitValue c of Some d \<Rightarrow> d < R | None \<Rightarrow> False)"

text \<open>The value of a digit string, most significant digit first.\<close>

fun mathInt :: "nat \<Rightarrow> nat \<Rightarrow> string \<Rightarrow> nat" where
  "mathInt R acc [] = acc"
| "mathInt R acc (c # cs) = mathInt R (acc * R + the (digitValue c)) cs"

text \<open>
  \<open>parseInt(string, radix)\<close>; an absent radix is \<open>0\<close>. Leading white space is dropped, one
  sign is read, a \<open>0x\<close> prefix is dropped when the radix is absent or 16, and the longest
  prefix of digits of the radix is the value; no digit at all gives \<open>NaN\<close>. (The sign of
  a zero result is not modelled: no caller sees it.)
\<close>

definition parseInt :: "string \<Rightarrow> nat \<Rightarrow> number" where
  "parseInt string radix =
     (let S = dropWhile isWhiteSpace string;
          neg = (take 1 S = ''-'');
          S = (if take 1 S = ''+'' \<or> take 1 S = ''-'' then drop 1 S else S);
          stripPrefix = (radix = 0 \<or> radix = 16);
          R = (if radix = 0 then 10 else radix)
      in if radix \<noteq> 0 \<and> (radix < 2 \<or> 36 < radix) then NaN
         else
           (let pre = (stripPrefix \<and> (take 2 S = ''0x'' \<or> take 2 S = ''0X''));
                S = (if pre then drop 2 S else S);
                R = (if pre then 16 else R);
                Z = takeWhile (isRadixDigit R) S
            in if Z = [] then NaN
               else toNumber ((if neg then - 1 else 1) * int (mathInt R 0 Z))))"

definition isNaN :: "number \<Rightarrow> bool" where
  "isNaN x = (x = NaN)"

text \<open>\<open>ToInt32\<close>: what the bitwise operators read of a number.\<close>

fun ToInt32 :: "number \<Rightarrow> 32 word" where
  "ToInt32 (Finite n) = word_of_int n"
| "ToInt32 _ = 0"

definition digitChar :: "nat \<Rightarrow> char" where
  "digitChar d = (if d < 10 then char_of (48 + d) else char_of (87 + d))"

function digitsOf :: "nat \<Rightarrow> nat \<Rightarrow> string" where
  "digitsOf R n = (if n < R \<or> R < 2 then [digitChar n] else digitsOf R (n div R) @ [digitChar (n mod R)])"
  by pat_completeness auto
termination
  by (relation "measure (\<lambda>(R, n). n)") auto

declare digitsOf.simps [simp del]

text \<open>
  The decimal form of a number, as \<open>Number::toString\<close> prints it: the fewest significant
  digits that read back as the same number. Below \<open>2 ^ 53\<close> these are the digits of the
  integer. From there on \<open>shortest\<close> looks for the largest power \<open>10 ^ e\<close> with a multiple that
  rounds to the number, next below or next above it (the nearer of the two when both do, the
  even one on a tie); a result of more than 21 digits is printed with an exponent.
\<close>

fun shortest :: "nat \<Rightarrow> nat \<Rightarrow> nat" where
  "shortest 0 a = a"
| "shortest (Suc e) a =
     (let lo = a div 10 ^ Suc e * 10 ^ Suc e;
          hi = lo + 10 ^ Suc e;
          okLo = (0 < lo \<and> toNumber (int lo) = Finite (int a));
          okHi = (toNumber (int hi) = Finite (int a))
      in if okLo \<and> okHi then
           (if a - lo < hi - a \<or> (a - lo = hi - a \<and> even (lo div 10 ^ Suc e)) then lo else hi)
         else if okLo then lo
         else if okHi then hi
         else shortest e a)"

definition decimalOf :: "nat \<Rightarrow> string" where
  "decimalOf a =
     (if a < 2 ^ 53 then digitsOf 10 a
      else
        (let ds = digitsOf 10 (shortest (length (digitsOf 10 a)) a);
             n = length ds;
             s = rev (dropWhile (\<lambda>c. c = CHR ''0'') (rev ds))
         in if n \<le> 21 then ds
            else take 1 s @ (if 1 < length s then ''.'' @ drop 1 s else []) @ ''e+'' @
                 digitsOf 10 (n - 1)))"

text \<open>
  \<open>Number.prototype.toString(radix)\<close> on the numbers of the model. The module prints in
  radix 10 (template literals and \<open>toString()\<close>) and in radix 16 (\<open>Hex\<close>); in a radix other than
  10 the digits of the integer are printed, with no exponent.
\<close>

fun numberToString :: "nat \<Rightarrow> number \<Rightarrow> string" where
  "numberToString R NaN = ''NaN''"
| "numberToString R PosInfinity = ''Infinity''"
| "numberToString R NegInfinity = ''-Infinity''"
| "numberToString R (Finite n) =
     (if n < 0 then ''-'' else []) @
     (if R = 10 then decimalOf (nat \<bar>n\<bar>) else digitsOf R (nat \<bar>n\<bar>))"

text \<open>\<open>String.prototype.padStart(n, "0")\<close> and \<open>Array.prototype.join\<close>.\<close>

definition padStart :: "nat \<Rightarrow> string \<Rightarrow> string" where
  "padStart n s = replicate (n - length s) (CHR ''0'') @ s"

fun join :: "string \<Rightarrow> string list \<Rightarrow> string" where
  "join sep [] = ''''"
| "join sep [x] = x"
| "join sep (x # y # ys) = x @ sep @ join sep (y # ys)"

subsection \<open>The enumerations\<close>

datatype Color =
    BLACK | RED | GREEN | YELLOW | BLUE | MAGENTA | CYAN | WHITE
  | BRIGHT_BLACK | BRIGHT_RED | BRIGHT_GREEN | BRIGHT_YELLOW
  | BRIGHT_BLUE | BRIGHT_MAGENTA | BRIGHT_CYAN | BRIGHT_WHITE

fun Color_value :: "Color \<Rightarrow> string" where
  "Color_value BLACK = ''30''"
| "Color_value RED = ''31''"
| "Color_value GREEN = ''32''"
| "Color_value YELLOW = ''33''"
| "Color_value BLUE = ''34''"
| "Color_value MAGENTA = ''35''"
| "Color_value CYAN = ''36''"
| "Color_value WHITE = ''37''"
| "Color_value BRIGHT_BLACK = ''90''"
| "Color_value BRIGHT_RED = ''91''"
| "Color_value BRIGHT_GREEN = ''92''"
| "Color_value BRIGHT_YELLOW = ''93''"
| "Color_value BRIGHT_BLUE = ''94''"
| "Color_value BRIGHT_MAGENTA = ''95''"
| "Color_value BRIGHT_CYAN = ''96''"
| "Color_value BRIGHT_WHITE = ''97''"

datatype Style = BOLD | DIM | ITALIC | UNDERLINE | BLINK | INVERT | HIDDEN | STRIKE

fun Style_value :: "Style \<Rightarrow> string" where
  "Style_value BOLD = ''1''"
| "Style_value DIM = ''2''"
| "Style_value ITALIC = ''3''"
| "Style_value UNDERLINE = ''4''"
| "Style_value BLINK = ''5''"
| "Style_value INVERT = ''7''"
| "Style_value HIDDEN = ''8''"
| "Style_value STRIKE = ''9''"

subsection \<open>Hex and RGB\<close>

datatype hex_arg = Num number | Str string

text \<open>\<open>hex.replace(/^#/, "")\<close>: one leading \<open>#\<close> is removed, no more.\<close>

definition stripHash :: "string \<Rightarrow> string" where
  "stripHash s = (case s of c # cs \<Rightarrow> (if c = CHR ''#'' then cs else s) | [] \<Rightarrow> [])"

fun Hex :: "hex_arg \<Rightarrow> string" where
  "Hex (Str hex) = padStart 6 (stripHash hex)"
| "Hex (Num hex) = padStart 6 (numberToString 16 hex)"

definition RGB :: "number \<Rightarrow> number \<Rightarrow> number \<Rightarrow> string" where
  "RGB r g b = numberToString 10 r @ '';'' @ numberToString 10 g @ '';'' @ numberToString 10 b"

definition isHexDigit :: "char \<Rightarrow> bool" where
  "isHexDigit c = isRadixDigit 16 c"

text \<open>The test of \<open>/^#([0-9a-f]{3}){1,2}$/i\<close>.\<close>

definition hexPattern :: "string \<Rightarrow> bool" where
  "hexPattern s =
     (case s of
        [] \<Rightarrow> False
      | c # ds \<Rightarrow> c = CHR ''#'' \<and> (length ds = 3 \<or> length ds = 6) \<and> list_all isHexDigit ds)"

definition HexToRGB :: "string \<Rightarrow> error + string" where
  "HexToRGB hex =
     (if hexPattern hex then Inl InvalidHexColor
      else
        (let num = parseInt hex 16;
             r = signed_drop_bit 16 (ToInt32 num);
             g = signed_drop_bit 8 (ToInt32 num) AND 0xff;
             b = ToInt32 num AND 0xff
         in Inr (RGB (Finite (sint r)) (Finite (sint g)) (Finite (sint b)))))"

subsection \<open>The builder\<close>

record CLW =
  str :: string
  color :: string
  bgColor :: string
  style :: "string list"

text \<open>
  The constructor. The factory \<open>clw\<close> builds its string with \<open>String.raw\<close> and calls the
  constructor on it.
\<close>

definition new_CLW :: "string \<Rightarrow> CLW" where
  "new_CLW s = \<lparr>str = s, color = '''', bgColor = '''', style = []\<rparr>"

definition ESC :: char where
  "ESC = CHR 0x1B"

definition toString :: "CLW \<Rightarrow> string" where
  "toString this =
     (let codes = [];
          codes = (if color this \<noteq> '''' then codes @ [color this] else codes);
          codes = (if 0 < length (style this) then codes @ [join '';'' (style this)] else codes);
          codes = (if bgColor this \<noteq> '''' then codes @ [bgColor this] else codes)
      in if length codes = 0 then str this
         else [ESC] @ ''['' @ join '';'' codes @ ''m'' @ str this @ [ESC] @ ''[0m'')"

definition colorToAnsii :: "Color \<Rightarrow> bool \<Rightarrow> error + string" where
  "colorToAnsii c bg =
     (let colorCode =
            (case parseInt (Color_value c) 0 of
               Finite n \<Rightarrow> toNumber (n + (if bg then 10 else 0))
             | x \<Rightarrow> x)
      in if isNaN colorCode then Inl InvalidColorCode
         else Inr (numberToString 10 colorCode))"

text \<open>The private method \<open>text\<close> (the name is an Isabelle keyword).\<close>

definition text_color :: "Color \<Rightarrow> CLW \<Rightarrow> error + CLW" where
  "text_color c this =
     (case colorToAnsii c False of
        Inl e \<Rightarrow> Inl e
      | Inr code \<Rightarrow> Inr (this\<lparr>color := code\<rparr>))"

definition text_hex :: "hex_arg \<Rightarrow> CLW \<Rightarrow> error + CLW" where
  "text_hex hex this =
     (case HexToRGB (Hex hex) of
        Inl e \<Rightarrow> Inl e
      | Inr rgb \<Rightarrow> Inr (this\<lparr>color := ''38;2;'' @ rgb\<rparr>))"

definition text_rgb :: "number \<Rightarrow> number \<Rightarrow> number \<Rightarrow> CLW \<Rightarrow> CLW" where
  "text_rgb r g b this = this\<lparr>color := ''38;2;'' @ RGB r g b\<rparr>"

definition text_256 :: "number \<Rightarrow> CLW \<Rightarrow> CLW" where
  "text_256 c this = this\<lparr>color := ''38;5;'' @ numberToString 10 c\<rparr>"

definition bg :: "Color \<Rightarrow> CLW \<Rightarrow> error + CLW" where
  "bg c this =
     (case colorToAnsii c True of
        Inl e \<Rightarrow> Inl e
      | Inr code \<Rightarrow> Inr (this\<lparr>bgColor := code\<rparr>))"

definition bg_hex :: "hex_arg \<Rightarrow> CLW \<Rightarrow> error + CLW" where
  "bg_hex hex this =
     (case HexToRGB (Hex hex) of
        Inl e \<Rightarrow> Inl e
      | Inr rgb \<Rightarrow> Inr (this\<lparr>bgColor := ''48;2;'' @ rgb\<rparr>))"

definition bg_rgb :: "number \<Rightarrow> number \<Rightarrow> number \<Rightarrow> CLW \<Rightarrow> CLW" where
  "bg_rgb r g b this = this\<lparr>bgColor := ''48;2;'' @ RGB r g b\<rparr>"

definition bg_256 :: "number \<Rightarrow> CLW \<Rightarrow> CLW" where
  "bg_256 c this = this\<lparr>bgColor := ''48;5;'' @ numberToString 10 c\<rparr>"

definition font :: "Style \<Rightarrow> CLW \<Rightarrow> CLW" where
  "font s this = this\<lparr>style := style this @ [Style_value s]\<rparr>"

definition reset :: "CLW \<Rightarrow> CLW" where
  "reset this = this\<lparr>color := '''', bgColor := '''', style := []\<rparr>"

text \<open>The public methods for the named colours and the styles, one per source method.\<close>

definition text_red :: "CLW \<Rightarrow> error + CLW" where
  "text_red this = text_color RED this"

definition text_green :: "CLW \<Rightarrow> error + CLW" where
  "text_green this = text_color GREEN this"

definition text_yellow :: "CLW \<Rightarrow> error + CLW" where
  "text_yellow this = text_color YELLOW this"

definition text_blue :: "CLW \<Rightarrow> error + CLW" where
  "text_blue this = text_color BLUE this"

definition text_magenta :: "CLW \<Rightarrow> error + CLW" where
  "text_magenta this = text_color MAGENTA this"

definition text_cyan :: "CLW \<Rightarrow> error + CLW" where
  "text_cyan this = text_color CYAN this"

definition text_white :: "CLW \<Rightarrow> error + CLW" where
  "text_white this = text_color WHITE this"

definition text_black :: "CLW \<Rightarrow> error + CLW" where
  "text_black this = text_color BLACK this"

definition text_bright_red :: "CLW \<Rightarrow> error + CLW" where
  "text_bright_red this = text_color BRIGHT_RED this"

definition text_bright_green :: "CLW \<Rightarrow> error + CLW" where
  "text_bright_green this = text_color BRIGHT_GREEN this"

definition text_bright_yellow :: "CLW \<Rightarrow> error + CLW" where
  "text_bright_yellow this = text_color BRIGHT_YELLOW this"

definition text_bright_blue :: "CLW \<Rightarrow> error + CLW" where
  "text_bright_blue this = text_color BRIGHT_BLUE this"

definition text_bright_magenta :: "CLW \<Rightarrow> error + CLW" where
  "text_bright_magenta this = text_color BRIGHT_MAGENTA this"

definition text_bright_cyan :: "CLW \<Rightarrow> error + CLW" where
  "text_bright_cyan this = text_color BRIGHT_CYAN this"

definition text_bright_white :: "CLW \<Rightarrow> error + CLW" where
  "text_bright_white this = text_color BRIGHT_WHITE this"

definition bg_red :: "CLW \<Rightarrow> error + CLW" where
  "bg_red this = bg RED this"

definition bg_green :: "CLW \<Rightarrow> error + CLW" where
  "bg_green this = bg GREEN this"

definition bg_yellow :: "CLW \<Rightarrow> error + CLW" where
  "bg_yellow this = bg YELLOW this"

definition bg_blue :: "CLW \<Rightarrow> error + CLW" where
  "bg_blue this = bg BLUE this"

definition bg_magenta :: "CLW \<Rightarrow> error + CLW" where
  "bg_magenta this = bg MAGENTA this"

definition bg_cyan :: "CLW \<Rightarrow> error + CLW" where
  "bg_cyan this = bg CYAN this"

definition bg_white :: "CLW \<Rightarrow> error + CLW" where
  "bg_white this = bg WHITE this"

definition bg_black :: "CLW \<Rightarrow> error + CLW" where
  "bg_black this = bg BLACK this"

definition bg_bright_red :: "CLW \<Rightarrow> error + CLW" where
  "bg_bright_red this = bg BRIGHT_RED this"

definition bg_bright_green :: "CLW \<Rightarrow> error + CLW" where
  "bg_bright_green this = bg BRIGHT_GREEN this"

definition bg_bright_yellow :: "CLW \<Rightarrow> error + CLW" where
  "bg_bright_yellow this = bg BRIGHT_YELLOW this"

definition bg_bright_blue :: "CLW \<Rightarrow> error + CLW" where
  "bg_bright_blue this = bg BRIGHT_BLUE this"

definition bg_bright_magenta :: "CLW \<Rightarrow> error + CLW" where
  "bg_bright_magenta this = bg BRIGHT_MAGENTA this"

definition bg_bright_cyan :: "CLW \<Rightarrow> error + CLW" where
  "bg_bright_cyan this = bg BRIGHT_CYAN this"

definition bg_bright_white :: "CLW \<Rightarrow> error + CLW" where
  "bg_bright_white this = bg BRIGHT_WHITE this"

definition font_bold :: "CLW \<Rightarrow> CLW" where
  "font_bold this = font BOLD this"

definition font_dim :: "CLW \<Rightarrow> CLW" where
  "font_dim this = font DIM this"

definition font_italic :: "CLW \<Rightarrow> CLW" where
  "font_italic this = font ITALIC this"

definition font_underline :: "CLW \<Rightarrow> CLW" where
  "font_underline this = font UNDERLINE this"

definition font_blink :: "CLW \<Rightarrow> CLW" where
  "font_blink this = font BLINK this"

definition font_invert :: "CLW \<Rightarrow> CLW" where
  "font_invert this = font INVERT this"

definition font_hidden :: "CLW \<Rightarrow> CLW" where
  "font_hidden this = font HIDDEN this"

definition font_strike :: "CLW \<Rightarrow> CLW" where
  "font_strike this = font STRIKE this"

text \<open>
  \<open>log\<close> writes the rendered string as one line to the console, which is the list of
  the lines written so far.
\<close>

definition log :: "CLW \<Rightarrow> string list \<Rightarrow> string list" where
  "log this console = console @ [toString this]"

subsection \<open>The public interface as a datatype of calls\<close>

datatype call =
    Text_hex hex_arg | Text_rgb number number number | Text_256 number
  | Bg_hex hex_arg | Bg_rgb number number number | Bg_256 number
  | Reset | ToString | Log
  | Text_red | Text_green | Text_yellow | Text_blue | Text_magenta
  | Text_cyan | Text_white | Text_black | Text_bright_red | Text_bright_green
  | Text_bright_yellow | Text_bright_blue | Text_bright_magenta | Text_bright_cyan | Text_bright_white
  | Bg_red | Bg_green | Bg_yellow | Bg_blue | Bg_magenta
  | Bg_cyan | Bg_white | Bg_black | Bg_bright_red | Bg_bright_green
  | Bg_bright_yellow | Bg_bright_blue | Bg_bright_magenta | Bg_bright_cyan | Bg_bright_white
  | Font_bold | Font_dim | Font_italic | Font_underline | Font_blink
  | Font_invert | Font_hidden | Font_strike

text \<open>
  A call acts on the builder and the console. \<open>throwing\<close> lifts a method that may
  throw, \<open>returning\<close> one that cannot.
\<close>

type_synonym state = "CLW \<times> string list"

definition throwing :: "(CLW \<Rightarrow> error + CLW) \<Rightarrow> state \<Rightarrow> error + state" where
  "throwing f st = (case f (fst st) of Inl e \<Rightarrow> Inl e | Inr this \<Rightarrow> Inr (this, snd st))"

definition returning :: "(CLW \<Rightarrow> CLW) \<Rightarrow> state \<Rightarrow> error + state" where
  "returning f st = Inr (f (fst st), snd st)"

fun invoke :: "call \<Rightarrow> state \<Rightarrow> error + state" where
  "invoke (Text_hex hex) = throwing (text_hex hex)"
| "invoke (Text_rgb r g b) = returning (text_rgb r g b)"
| "invoke (Text_256 c) = returning (text_256 c)"
| "invoke (Bg_hex hex) = throwing (bg_hex hex)"
| "invoke (Bg_rgb r g b) = returning (bg_rgb r g b)"
| "invoke (Bg_256 c) = returning (bg_256 c)"
| "invoke Reset = returning reset"
| "invoke ToString = (\<lambda>st. Inr st)"
| "invoke Log = (\<lambda>st. Inr (fst st, log (fst st) (snd st)))"
| "invoke Text_red = throwing text_red"
| "invoke Text_green = throwing text_green"
| "invoke Text_yellow = throwing text_yellow"
| "invoke Text_blue = throwing text_blue"
| "invoke Text_magenta = throwing text_magenta"
| "invoke Text_cyan = throwing text_cyan"
| "invoke Text_white = throwing text_white"
| "invoke Text_black = throwing text_black"
| "invoke Text_bright_red = throwing text_bright_red"
| "invoke Text_bright_green = throwing text_bright_green"
| "invoke Text_bright_yellow = throwing text_bright_yellow"
| "invoke Text_bright_blue = throwing text_bright_blue"
| "invoke Text_bright_magenta = throwing text_bright_magenta"
| "invoke Text_bright_cyan = throwing text_bright_cyan"
| "invoke Text_bright_white = throwing text_bright_white"
| "invoke Bg_red = throwing bg_red"
| "invoke Bg_green = throwing bg_green"
| "invoke Bg_yellow = throwing bg_yellow"
| "invoke Bg_blue = throwing bg_blue"
| "invoke Bg_magenta = throwing bg_magenta"
| "invoke Bg_cyan = throwing bg_cyan"
| "invoke Bg_white = throwing bg_white"
| "invoke Bg_black = throwing bg_black"
| "invoke Bg_bright_red = throwing bg_bright_red"
| "invoke Bg_bright_green = throwing bg_bright_green"
| "invoke Bg_bright_yellow = throwing bg_bright_yellow"
| "invoke Bg_bright_blue = throwing bg_bright_blue"
| "invoke Bg_bright_magenta = throwing bg_bright_magenta"
| "invoke Bg_bright_cyan = throwing bg_bright_cyan"
| "invoke Bg_bright_white = throwing bg_bright_white"
| "invoke Font_bold = returning font_bold"
| "invoke Font_dim = returning font_dim"
| "invoke Font_italic = returning font_italic"
| "invoke Font_underline = returning font_underline"
| "invoke Font_blink = returning font_blink"
| "invoke Font_invert = returning font_invert"
| "invoke Font_hidden = returning font_hidden"
| "invoke Font_strike = returning font_strike"

text \<open>A chain of calls stops at the first throw.\<close>

fun run :: "call list \<Rightarrow> state \<Rightarrow> error + state" where
  "run [] st = Inr st"
| "run (c # cs) st = (case invoke c st of Inl e \<Rightarrow> Inl e | Inr st' \<Rightarrow> run cs st')"

text \<open>
  The chained expression \<open>new CLW(s).c1() ... .cn().toString()\<close>: the rendered string, or
  the error that aborted the chain.
\<close>

definition render :: "call list \<Rightarrow> string \<Rightarrow> error + string" where
  "render cs s = (case run cs (new_CLW s, []) of Inl e \<Rightarrow> Inl e | Inr st \<Rightarrow> Inr (toString (fst st)))"

text \<open>
  The three kinds of setter: the methods that assign \<open>this.color\<close>, those that assign
  \<open>this.bgColor\<close>, and those that push onto \<open>this.style\<close>.
\<close>

fun is_text :: "call \<Rightarrow> bool" where
  "is_text (Text_hex hex) = True"
| "is_text (Text_rgb r g b) = True"
| "is_text (Text_256 c) = True"
| "is_text Text_red = True"
| "is_text Text_green = True"
| "is_text Text_yellow = True"
| "is_text Text_blue = True"
| "is_text Text_magenta = True"
| "is_text Text_cyan = True"
| "is_text Text_white = True"
| "is_text Text_black = True"
| "is_text Text_bright_red = True"
| "is_text Text_bright_green = True"
| "is_text Text_bright_yellow = True"
| "is_text Text_bright_blue = True"
| "is_text Text_bright_magenta = True"
| "is_text Text_bright_cyan = True"
| "is_text Text_bright_white = True"
| "is_text _ = False"

fun is_bg :: "call \<Rightarrow> bool" where
  "is_bg (Bg_hex hex) = True"
| "is_bg (Bg_rgb r g b) = True"
| "is_bg (Bg_256 c) = True"
| "is_bg Bg_red = True"
| "is_bg Bg_green = True"
| "is_bg Bg_yellow = True"
| "is_bg Bg_blue = True"
| "is_bg Bg_magenta = True"
| "is_bg Bg_cyan = True"
| "is_bg Bg_white = True"
| "is_bg Bg_black = True"
| "is_bg Bg_bright_red = True"
| "is_bg Bg_bright_green = True"
| "is_bg Bg_bright_yellow = True"
| "is_bg Bg_bright_blue = True"
| "is_bg Bg_bright_magenta = True"
| "is_bg Bg_bright_cyan = True"
| "is_bg Bg_bright_white = True"
| "is_bg _ = False"

fun is_font :: "call \<Rightarrow> bool" where
  "is_font Font_bold = True"
| "is_font Font_dim = True"
| "is_font Font_italic = True"
| "is_font Font_underline = True"
| "is_font Font_blink = True"
| "is_font Font_invert = True"
| "is_font Font_hidden = True"
| "is_font Font_strike = True"
| "is_font _ = False"

definition is_setter :: "call \<Rightarrow> bool" where
  "is_setter c = (is_text c \<or> is_font c \<or> is_bg c)"

text \<open>The code that each style call is documented to add to the style list.\<close>

fun font_code :: "call \<Rightarrow> string" where
  "font_code Font_bold = ''1''"
| "font_code Font_dim = ''2''"
| "font_code Font_italic = ''3''"
| "font_code Font_underline = ''4''"
| "font_code Font_blink = ''5''"
| "font_code Font_invert = ''7''"
| "font_code Font_hidden = ''8''"
| "font_code Font_strike = ''9''"
| "font_code _ = []"

section \<open>Properties\<close>

subsection \<open>Evaluation and auxiliary facts\<close>

lemma bitLength_le_iff: "bitLength n \<le> m \<longleftrightarrow> n < 2 ^ m"
proof (induction n arbitrary: m rule: bitLength.induct)
  case (1 n)
  show ?case
  proof (cases "n = 0")
    case True
    then show ?thesis by (simp add: bitLength.simps)
  next
    case False
    note nz = this
    show ?thesis
    proof (cases m)
      case 0
      with nz show ?thesis by (simp add: bitLength.simps [of n])
    next
      case (Suc m')
      have "bitLength n \<le> Suc m' \<longleftrightarrow> bitLength (n div 2) \<le> m'"
        using nz by (simp add: bitLength.simps [of n])
      also have "\<dots> \<longleftrightarrow> n div 2 < 2 ^ m'"
        using "1.IH" [OF nz] by simp
      also have "\<dots> \<longleftrightarrow> n < 2 ^ Suc m'"
        by auto
      finally show ?thesis using Suc by simp
    qed
  qed
qed

lemma toNumber_small: "\<bar>n\<bar> < 2 ^ 53 \<Longrightarrow> toNumber n = Finite n"
proof -
  assume a: "\<bar>n\<bar> < 2 ^ 53"
  have lt: "nat \<bar>n\<bar> < 2 ^ 53" using a by (simp add: nat_less_iff)
  then have b: "bitLength (nat \<bar>n\<bar>) \<le> 53" by (simp only: bitLength_le_iff)
  then have k: "bitLength (nat \<bar>n\<bar>) - 53 = 0" by simp
  have "\<not> 1024 < bitLength (nat \<bar>n\<bar>)" using b by simp
  then show ?thesis
    unfolding toNumber_def Let_def k by simp
qed

lemmas parse_simps = parseInt_def isWhiteSpace_def isRadixDigit_def digitValue_def toNumber_small

lemma replicate_numeral: "replicate (numeral k) x = x # replicate (pred_numeral k) x"
  by (simp add: numeral_eq_Suc)

lemma digitsOf_numeral:
  "digitsOf R (numeral k) =
     (if numeral k < R \<or> R < 2 then [digitChar (numeral k)]
      else digitsOf R (numeral k div R) @ [digitChar (numeral k mod R)])"
  by (subst digitsOf.simps) simp

lemma digitsOf_0: "digitsOf R 0 = [digitChar 0]"
  by (subst digitsOf.simps) auto

lemma digitsOf_1: "digitsOf R (Suc 0) = [digitChar (Suc 0)]"
  by (subst digitsOf.simps) auto

lemma decimalOf_small: "a < 2 ^ 53 \<Longrightarrow> decimalOf a = digitsOf 10 a"
  by (simp add: decimalOf_def)

lemma bitLength_numeral:
  "bitLength (numeral k) = Suc (bitLength (numeral k div 2))"
  by (subst bitLength.simps) simp

lemma bitLength_0: "bitLength 0 = 0"
  by (simp add: bitLength.simps)

lemma bitLength_1: "bitLength (Suc 0) = Suc 0"
  by (simp add: bitLength.simps [of "Suc 0"] bitLength_0)

text \<open>What \<open>(2 ** 53).toString()\<close> prints.\<close>

lemma decimalOf_example: "decimalOf (2 ^ 53) = ''9007199254740992''"
  by (simp add: decimalOf_def toNumber_def Let_def bitLength_numeral bitLength_0 bitLength_1
      digitsOf_numeral digitsOf_0 digitsOf_1 digitChar_def char_of_eq_iff)

lemmas print_simps = decimalOf_small digitsOf_numeral digitsOf_0 digitsOf_1 digitChar_def char_of_eq_iff
lemmas hex_simps = HexToRGB_def hexPattern_def isHexDigit_def padStart_def stripHash_def RGB_def replicate_numeral

lemma colorToAnsii_Inr: "\<exists>code. colorToAnsii c isBg = Inr code"
  by (cases c) (simp_all add: colorToAnsii_def isNaN_def parse_simps)

lemma digitChar_not_hash: "d < 36 \<Longrightarrow> digitChar d \<noteq> CHR ''#''"
  by (auto simp add: digitChar_def char_of_eq_iff take_bit_eq_mod)

lemma digitsOf_Cons: "2 \<le> R \<Longrightarrow> \<exists>d ds. digitsOf R n = digitChar d # ds \<and> d < R"
proof (induction R n rule: digitsOf.induct)
  case (1 R n)
  show ?case
  proof (cases "n < R")
    case True
    then show ?thesis by (subst digitsOf.simps) auto
  next
    case False
    with "1.prems" have "\<exists>d ds. digitsOf R (n div R) = digitChar d # ds \<and> d < R"
      by (intro "1.IH") auto
    then obtain d ds where "digitsOf R (n div R) = digitChar d # ds" "d < R" by blast
    with False "1.prems" show ?thesis by (subst digitsOf.simps) auto
  qed
qed

lemma hexPattern_Hex_Num: "\<not> hexPattern (Hex (Num x))"
proof -
  have "\<exists>c cs. numberToString 16 x = c # cs \<and> c \<noteq> CHR ''#''"
  proof (cases x)
    case (Finite n)
    obtain d ds where d: "digitsOf 16 (nat \<bar>n\<bar>) = digitChar d # ds" "d < 16"
      using digitsOf_Cons [of 16 "nat \<bar>n\<bar>"] by auto
    then have "digitChar d \<noteq> CHR ''#''" by (intro digitChar_not_hash) simp
    with d Finite show ?thesis by auto
  qed simp_all
  then obtain c cs where s: "numberToString 16 x = c # cs" "c \<noteq> CHR ''#''" by blast
  show ?thesis
    by (cases "6 - length (c # cs)") (simp_all add: hexPattern_def padStart_def s)
qed

lemma hexPattern_Hex_Str:
  "hexPattern (Hex (Str s)) \<longleftrightarrow> (\<exists>ds. s = ''##'' @ ds \<and> length ds = 6 \<and> list_all isHexDigit ds)"
proof (cases "length (stripHash s) < 6")
  case True
  then obtain k where k: "6 - length (stripHash s) = Suc k" by (cases "6 - length (stripHash s)") auto
  have "\<not> hexPattern (Hex (Str s))" by (simp add: hexPattern_def padStart_def k)
  moreover have "\<not> (\<exists>ds. s = ''##'' @ ds \<and> length ds = 6 \<and> list_all isHexDigit ds)"
    using True by (auto simp: stripHash_def)
  ultimately show ?thesis by simp
next
  case False
  then have h: "Hex (Str s) = stripHash s" by (simp add: padStart_def)
  show ?thesis unfolding h using False
    by (auto simp: hexPattern_def stripHash_def split: list.splits if_splits)
qed

lemma sint_and_255: "sint ((w :: 32 word) AND 0xff) = sint w mod 256"
proof -
  have m: "(w :: 32 word) AND 0xff = take_bit 8 w"
    by (simp add: take_bit_eq_mask mask_eq_exp_minus_1)
  have a: "uint (take_bit 8 w) = take_bit 8 (uint w)"
    by (simp add: unsigned_take_bit_eq)
  have lo: "- (2 ^ 31) \<le> take_bit 8 (uint w)"
    by (rule order_trans [of _ 0]) simp_all
  have "take_bit 8 (uint w) < 2 ^ 8" by (rule take_bit_int_less_exp)
  then have hi: "take_bit 8 (uint w) < 2 ^ 31" by simp
  have "sint (take_bit 8 w) = signed_take_bit 31 (take_bit 8 (uint w))"
    by (simp add: sint_uint a)
  also have "\<dots> = take_bit 8 (uint w)"
    using lo hi by (rule signed_take_bit_int_eq_self)
  also have "\<dots> = take_bit 8 (sint w)"
    by (simp add: sint_uint take_bit_signed_take_bit)
  also have "\<dots> = sint w mod 256"
    by (simp add: take_bit_eq_mod)
  finally show ?thesis by (simp only: m)
qed

lemma sint_sdrop: "sint (signed_drop_bit n (w :: 32 word)) = sint w div 2 ^ n"
  by (simp add: sint_signed_drop_bit_eq drop_bit_eq_div)

lemma HexToRGB_channels:
  "\<not> hexPattern hex \<Longrightarrow>
   HexToRGB hex =
     (let v = sint (ToInt32 (parseInt hex 16))
      in Inr (RGB (Finite (v div 65536)) (Finite (v div 256 mod 256)) (Finite (v mod 256))))"
  by (simp add: HexToRGB_def Let_def sint_and_255 sint_sdrop)

lemma hexPattern_Hex:
  "hexPattern (Hex hex) \<longleftrightarrow>
   (\<exists>ds. hex = Str (''##'' @ ds) \<and> length ds = 6 \<and> list_all isHexDigit ds)"
  by (cases hex) (simp_all only: hexPattern_Hex_Num hexPattern_Hex_Str hex_arg.simps simp_thms)

lemma HexToRGB_isl: "isl (HexToRGB s) \<longleftrightarrow> hexPattern s"
  by (simp add: HexToRGB_def Let_def)

lemma HexToRGB_NaN:
  "\<not> hexPattern s \<Longrightarrow> parseInt s 16 = NaN \<Longrightarrow> HexToRGB s = Inr ''0;0;0''"
  by (simp add: HexToRGB_def RGB_def print_simps)

lemmas builder_simps = render_def throwing_def returning_def new_CLW_def toString_def
  text_color_def bg_def font_def colorToAnsii_def isNaN_def text_hex_def bg_hex_def

lemma Color_value_parse:
  "\<exists>n. parseInt (Color_value c) 0 = Finite n \<and> numberToString 10 (Finite n) = Color_value c \<and>
       (c \<in> {BLACK, RED, GREEN, YELLOW, BLUE, MAGENTA, CYAN, WHITE} \<and> 30 \<le> n \<and> n \<le> 37 \<or>
        c \<in> {BRIGHT_BLACK, BRIGHT_RED, BRIGHT_GREEN, BRIGHT_YELLOW, BRIGHT_BLUE, BRIGHT_MAGENTA,
               BRIGHT_CYAN, BRIGHT_WHITE} \<and> 90 \<le> n \<and> n \<le> 97)"
proof (cases c)
  case BLACK
  show ?thesis unfolding BLACK by (rule exI [of _ 30]) (simp add: parse_simps print_simps)
next
  case RED
  show ?thesis unfolding RED by (rule exI [of _ 31]) (simp add: parse_simps print_simps)
next
  case GREEN
  show ?thesis unfolding GREEN by (rule exI [of _ 32]) (simp add: parse_simps print_simps)
next
  case YELLOW
  show ?thesis unfolding YELLOW by (rule exI [of _ 33]) (simp add: parse_simps print_simps)
next
  case BLUE
  show ?thesis unfolding BLUE by (rule exI [of _ 34]) (simp add: parse_simps print_simps)
next
  case MAGENTA
  show ?thesis unfolding MAGENTA by (rule exI [of _ 35]) (simp add: parse_simps print_simps)
next
  case CYAN
  show ?thesis unfolding CYAN by (rule exI [of _ 36]) (simp add: parse_simps print_simps)
next
  case WHITE
  show ?thesis unfolding WHITE by (rule exI [of _ 37]) (simp add: parse_simps print_simps)
next
  case BRIGHT_BLACK
  show ?thesis unfolding BRIGHT_BLACK by (rule exI [of _ 90]) (simp add: parse_simps print_simps)
next
  case BRIGHT_RED
  show ?thesis unfolding BRIGHT_RED by (rule exI [of _ 91]) (simp add: parse_simps print_simps)
next
  case BRIGHT_GREEN
  show ?thesis unfolding BRIGHT_GREEN by (rule exI [of _ 92]) (simp add: parse_simps print_simps)
next
  case BRIGHT_YELLOW
  show ?thesis unfolding BRIGHT_YELLOW by (rule exI [of _ 93]) (simp add: parse_simps print_simps)
next
  case BRIGHT_BLUE
  show ?thesis unfolding BRIGHT_BLUE by (rule exI [of _ 94]) (simp add: parse_simps print_simps)
next
  case BRIGHT_MAGENTA
  show ?thesis unfolding BRIGHT_MAGENTA by (rule exI [of _ 95]) (simp add: parse_simps print_simps)
next
  case BRIGHT_CYAN
  show ?thesis unfolding BRIGHT_CYAN by (rule exI [of _ 96]) (simp add: parse_simps print_simps)
next
  case BRIGHT_WHITE
  show ?thesis unfolding BRIGHT_WHITE by (rule exI [of _ 97]) (simp add: parse_simps print_simps)
qed

lemma digitsOf_nonempty: "2 \<le> R \<Longrightarrow> digitsOf R n \<noteq> []"
  using digitsOf_Cons [of R n] by auto

lemma decimalOf_nonempty: "decimalOf a \<noteq> []"
proof (cases "a < 2 ^ 53")
  case True
  then show ?thesis by (simp add: decimalOf_small digitsOf_nonempty)
next
  case False
  have "digitsOf 10 (shortest (length (digitsOf 10 a)) a) \<noteq> []"
    by (rule digitsOf_nonempty) simp
  with False show ?thesis by (simp add: decimalOf_def Let_def)
qed

lemma numberToString_nonempty:
  assumes "2 \<le> R"
  shows "numberToString R x \<noteq> []"
proof (cases x)
  case (Finite n)
  then show ?thesis
    using digitsOf_nonempty [OF assms] decimalOf_nonempty by simp
qed simp_all

lemma toString_color_only:
  "code \<noteq> [] \<Longrightarrow>
   toString \<lparr>str = s, color = code, bgColor = [], style = []\<rparr> = [ESC] @ ''['' @ code @ ''m'' @ s @ [ESC] @ ''[0m''"
  by (simp add: toString_def)

lemma toString_bgColor_only:
  "code \<noteq> [] \<Longrightarrow>
   toString \<lparr>str = s, color = [], bgColor = code, style = []\<rparr> = [ESC] @ ''['' @ code @ ''m'' @ s @ [ESC] @ ''[0m''"
  by (simp add: toString_def)

subsection \<open>What each kind of setter does\<close>

lemmas wrapper_defs =
  text_red_def text_green_def text_yellow_def text_blue_def text_magenta_def text_cyan_def
  text_white_def text_black_def text_bright_red_def text_bright_green_def
  text_bright_yellow_def text_bright_blue_def text_bright_magenta_def text_bright_cyan_def
  text_bright_white_def bg_red_def bg_green_def bg_yellow_def bg_blue_def bg_magenta_def
  bg_cyan_def bg_white_def bg_black_def bg_bright_red_def bg_bright_green_def
  bg_bright_yellow_def bg_bright_blue_def bg_bright_magenta_def bg_bright_cyan_def
  bg_bright_white_def font_bold_def font_dim_def font_italic_def font_underline_def
  font_blink_def font_invert_def font_hidden_def font_strike_def

lemma wrapper_eqs:
  "text_red = text_color RED"
  "text_green = text_color GREEN"
  "text_yellow = text_color YELLOW"
  "text_blue = text_color BLUE"
  "text_magenta = text_color MAGENTA"
  "text_cyan = text_color CYAN"
  "text_white = text_color WHITE"
  "text_black = text_color BLACK"
  "text_bright_red = text_color BRIGHT_RED"
  "text_bright_green = text_color BRIGHT_GREEN"
  "text_bright_yellow = text_color BRIGHT_YELLOW"
  "text_bright_blue = text_color BRIGHT_BLUE"
  "text_bright_magenta = text_color BRIGHT_MAGENTA"
  "text_bright_cyan = text_color BRIGHT_CYAN"
  "text_bright_white = text_color BRIGHT_WHITE"
  "bg_red = bg RED"
  "bg_green = bg GREEN"
  "bg_yellow = bg YELLOW"
  "bg_blue = bg BLUE"
  "bg_magenta = bg MAGENTA"
  "bg_cyan = bg CYAN"
  "bg_white = bg WHITE"
  "bg_black = bg BLACK"
  "bg_bright_red = bg BRIGHT_RED"
  "bg_bright_green = bg BRIGHT_GREEN"
  "bg_bright_yellow = bg BRIGHT_YELLOW"
  "bg_bright_blue = bg BRIGHT_BLUE"
  "bg_bright_magenta = bg BRIGHT_MAGENTA"
  "bg_bright_cyan = bg BRIGHT_CYAN"
  "bg_bright_white = bg BRIGHT_WHITE"
  "font_bold = font BOLD"
  "font_dim = font DIM"
  "font_italic = font ITALIC"
  "font_underline = font UNDERLINE"
  "font_blink = font BLINK"
  "font_invert = font INVERT"
  "font_hidden = font HIDDEN"
  "font_strike = font STRIKE"
  by (rule ext, simp add: wrapper_defs)+

lemma effect_text_color:
  "\<exists>s. \<forall>this out. throwing (text_color c) (this, out) = Inr (this\<lparr>color := s\<rparr>, out)"
proof -
  obtain code where "colorToAnsii c False = Inr code" using colorToAnsii_Inr by blast
  then show ?thesis by (intro exI [of _ code]) (simp add: throwing_def text_color_def)
qed

lemma effect_bg:
  "\<exists>s. \<forall>this out. throwing (bg c) (this, out) = Inr (this\<lparr>bgColor := s\<rparr>, out)"
proof -
  obtain code where "colorToAnsii c True = Inr code" using colorToAnsii_Inr by blast
  then show ?thesis by (intro exI [of _ code]) (simp add: throwing_def bg_def)
qed

lemma HexToRGB_cases: "HexToRGB s = Inl InvalidHexColor \<or> (\<exists>rgb. HexToRGB s = Inr rgb)"
  by (simp add: HexToRGB_def Let_def)

lemma effect_text_hex:
  "\<exists>s. (\<forall>this out. throwing (text_hex hex) (this, out) = Inl InvalidHexColor) \<or>
       (\<forall>this out. throwing (text_hex hex) (this, out) = Inr (this\<lparr>color := s\<rparr>, out))"
  using HexToRGB_cases [of "Hex hex"] by (auto simp: throwing_def text_hex_def)

lemma effect_bg_hex:
  "\<exists>s. (\<forall>this out. throwing (bg_hex hex) (this, out) = Inl InvalidHexColor) \<or>
       (\<forall>this out. throwing (bg_hex hex) (this, out) = Inr (this\<lparr>bgColor := s\<rparr>, out))"
  using HexToRGB_cases [of "Hex hex"] by (auto simp: throwing_def bg_hex_def)

lemma effect_text:
  assumes "is_text c"
  shows "\<exists>s. (\<forall>this out. invoke c (this, out) = Inl InvalidHexColor) \<or>
             (\<forall>this out. invoke c (this, out) = Inr (this\<lparr>color := s\<rparr>, out))"
  using assms
proof (cases c)
  case (Text_hex hex)
  then show ?thesis using effect_text_hex [of hex] by simp
next
  case (Text_rgb r g b)
  then show ?thesis by (auto simp: returning_def text_rgb_def)
next
  case (Text_256 n)
  then show ?thesis by (auto simp: returning_def text_256_def)
qed (simp_all add: wrapper_eqs effect_text_color)

lemma effect_bgColor:
  assumes "is_bg c"
  shows "\<exists>s. (\<forall>this out. invoke c (this, out) = Inl InvalidHexColor) \<or>
             (\<forall>this out. invoke c (this, out) = Inr (this\<lparr>bgColor := s\<rparr>, out))"
  using assms
proof (cases c)
  case (Bg_hex hex)
  then show ?thesis using effect_bg_hex [of hex] by simp
next
  case (Bg_rgb r g b)
  then show ?thesis by (auto simp: returning_def bg_rgb_def)
next
  case (Bg_256 n)
  then show ?thesis by (auto simp: returning_def bg_256_def)
qed (simp_all add: wrapper_eqs effect_bg)

lemma effect_font_style:
  "\<exists>x. \<forall>this out. returning (font s) (this, out) = Inr (this\<lparr>style := style this @ [x]\<rparr>, out)"
  by (intro exI [of _ "Style_value s"]) (simp add: returning_def font_def)

lemma effect_font:
  assumes "is_font c"
  shows "\<exists>x. \<forall>this out. invoke c (this, out) = Inr (this\<lparr>style := style this @ [x]\<rparr>, out)"
  using assms by (cases c) (simp_all add: wrapper_eqs effect_font_style)

lemma kinds_exclusive:
  "is_text c \<Longrightarrow> \<not> is_font c \<and> \<not> is_bg c"
  "is_font c \<Longrightarrow> \<not> is_text c \<and> \<not> is_bg c"
  "is_bg c \<Longrightarrow> \<not> is_text c \<and> \<not> is_font c"
  by (cases c; simp)+

lemma run_swap:
  assumes "(\<forall>this out. invoke c (this, out) = Inl InvalidHexColor) \<or>
           (\<forall>this out. invoke c (this, out) = Inr (f this, out))"
    and "(\<forall>this out. invoke d (this, out) = Inl InvalidHexColor) \<or>
         (\<forall>this out. invoke d (this, out) = Inr (g this, out))"
    and "\<And>this. f (g this) = g (f this)"
  shows "run (c # d # cs) st = run (d # c # cs) st"
  using assms by (cases st) auto

lemma swap_text_font:
  assumes "is_text c" "is_font d"
  shows "run (c # d # cs) st = run (d # c # cs) st"
proof -
  from effect_text [OF assms(1)] obtain s where
    c: "(\<forall>this out. invoke c (this, out) = Inl InvalidHexColor) \<or>
        (\<forall>this out. invoke c (this, out) = Inr (this\<lparr>color := s\<rparr>, out))" by blast
  from effect_font [OF assms(2)] obtain x where
    d: "\<forall>this out. invoke d (this, out) = Inr (this\<lparr>style := style this @ [x]\<rparr>, out)" by blast
  show ?thesis
    by (rule run_swap [where f = "\<lambda>this. this\<lparr>color := s\<rparr>"
          and g = "\<lambda>this. this\<lparr>style := style this @ [x]\<rparr>"]) (use c d in simp_all)
qed

lemma swap_text_bg:
  assumes "is_text c" "is_bg d"
  shows "run (c # d # cs) st = run (d # c # cs) st"
proof -
  from effect_text [OF assms(1)] obtain s where
    c: "(\<forall>this out. invoke c (this, out) = Inl InvalidHexColor) \<or>
        (\<forall>this out. invoke c (this, out) = Inr (this\<lparr>color := s\<rparr>, out))" by blast
  from effect_bgColor [OF assms(2)] obtain s' where
    d: "(\<forall>this out. invoke d (this, out) = Inl InvalidHexColor) \<or>
        (\<forall>this out. invoke d (this, out) = Inr (this\<lparr>bgColor := s'\<rparr>, out))" by blast
  show ?thesis
    by (rule run_swap [where f = "\<lambda>this. this\<lparr>color := s\<rparr>"
          and g = "\<lambda>this. this\<lparr>bgColor := s'\<rparr>"]) (use c d in simp_all)
qed

lemma swap_font_bg:
  assumes "is_font c" "is_bg d"
  shows "run (c # d # cs) st = run (d # c # cs) st"
proof -
  from effect_font [OF assms(1)] obtain x where
    c: "\<forall>this out. invoke c (this, out) = Inr (this\<lparr>style := style this @ [x]\<rparr>, out)" by blast
  from effect_bgColor [OF assms(2)] obtain s' where
    d: "(\<forall>this out. invoke d (this, out) = Inl InvalidHexColor) \<or>
        (\<forall>this out. invoke d (this, out) = Inr (this\<lparr>bgColor := s'\<rparr>, out))" by blast
  show ?thesis
    by (rule run_swap [where f = "\<lambda>this. this\<lparr>style := style this @ [x]\<rparr>"
          and g = "\<lambda>this. this\<lparr>bgColor := s'\<rparr>"]) (use c d in simp_all)
qed

lemma run_Cons_cong:
  "(\<And>st'. run cs st' = run ds st') \<Longrightarrow> run (c # cs) st = run (c # ds) st"
  by (simp split: sum.splits)

text \<open>A call moves to the right past calls it can be swapped with.\<close>

lemma run_bubble:
  assumes "\<And>x zs st. x \<in> set xs \<Longrightarrow> run (x # c # zs) st = run (c # x # zs) st"
  shows "run (c # xs @ ys) st = run (xs @ c # ys) st"
  using assms
proof (induction xs arbitrary: st)
  case Nil
  then show ?case by simp
next
  case (Cons x xs)
  have "run (c # (x # xs) @ ys) st = run (x # c # xs @ ys) st"
    using Cons.prems [of x "xs @ ys" st] by simp
  also have "\<dots> = run (x # xs @ c # ys) st"
    by (rule run_Cons_cong) (rule Cons.IH, rule Cons.prems, simp)
  finally show ?case by simp
qed

text \<open>
  Every chain of setters runs as the chain of its foreground setters, then its style calls,
  then its background setters, each group in its own order.
\<close>

lemma run_canonical:
  assumes "list_all is_setter cs"
  shows "run cs st = run (filter is_text cs @ filter is_font cs @ filter is_bg cs) st"
  using assms
proof (induction cs arbitrary: st)
  case Nil
  then show ?case by simp
next
  case (Cons c cs)
  let ?T = "filter is_text cs" and ?F = "filter is_font cs" and ?B = "filter is_bg cs"
  from Cons.prems have cs: "list_all is_setter cs" and c: "is_setter c" by simp_all
  have step: "run (c # cs) st = run (c # ?T @ ?F @ ?B) st"
    by (rule run_Cons_cong) (rule Cons.IH [OF cs])
  from c consider (t) "is_text c" | (f) "is_font c" | (b) "is_bg c"
    by (auto simp: is_setter_def)
  then show ?case
  proof cases
    case t
    then show ?thesis using step kinds_exclusive(1) [OF t] by simp
  next
    case f
    have "run (c # ?T @ (?F @ ?B)) st = run (?T @ c # (?F @ ?B)) st"
    proof (rule run_bubble)
      fix x zs st'
      assume "x \<in> set ?T"
      then have "is_text x" by simp
      then show "run (x # c # zs) st' = run (c # x # zs) st'"
        using f by (rule swap_text_font)
    qed
    then show ?thesis using step kinds_exclusive(2) [OF f] f by simp
  next
    case b
    have "run (c # (?T @ ?F) @ ?B) st = run ((?T @ ?F) @ c # ?B) st"
    proof (rule run_bubble)
      fix x zs st'
      assume "x \<in> set (?T @ ?F)"
      then have "is_text x \<or> is_font x" by auto
      then show "run (x # c # zs) st' = run (c # x # zs) st'"
        using swap_text_bg [of x c zs st'] swap_font_bg [of x c zs st'] b by blast
    qed
    then show ?thesis using step kinds_exclusive(3) [OF b] b by simp
  qed
qed

subsection \<open>Chains of calls\<close>

lemma toString_all_set:
  "color this \<noteq> [] \<Longrightarrow> style this \<noteq> [] \<Longrightarrow> bgColor this \<noteq> [] \<Longrightarrow>
   toString this =
     [ESC] @ ''['' @ color this @ '';'' @ join '';'' (style this) @ '';'' @ bgColor this @
     ''m'' @ str this @ [ESC] @ ''[0m''"
  by (simp add: toString_def)

lemma run_append:
  "run (xs @ ys) st = (case run xs st of Inl e \<Rightarrow> Inl e | Inr st' \<Rightarrow> run ys st')"
  by (induction xs arbitrary: st) (simp_all split: sum.splits)

lemma invoke_str:
  assumes "invoke c st = Inr st'"
  shows "str (fst st') = str (fst st)"
  using assms
  by (cases c)
    (auto simp: throwing_def returning_def wrapper_defs text_color_def bg_def font_def
      text_hex_def bg_hex_def text_rgb_def bg_rgb_def text_256_def bg_256_def reset_def
      split: sum.splits)

lemma run_str:
  assumes "run cs st = Inr st'"
  shows "str (fst st') = str (fst st)"
  using assms
proof (induction cs arbitrary: st)
  case Nil
  then show ?case by simp
next
  case (Cons c cs)
  then obtain st1 where 1: "invoke c st = Inr st1" and 2: "run cs st1 = Inr st'"
    by (auto split: sum.splits)
  from Cons.IH [OF 2] invoke_str [OF 1] show ?case by simp
qed

text \<open>A chain of setters appends the codes of its style calls, in the order of the calls.\<close>

lemma invoke_style:
  assumes "is_setter c" and "invoke c (this, out) = Inr (this', out')"
  shows "style this' = style this @ (if is_font c then [font_code c] else [])"
  using assms
  by (cases c)
    (auto simp: is_setter_def throwing_def returning_def wrapper_defs text_color_def bg_def font_def
      text_hex_def bg_hex_def text_rgb_def bg_rgb_def text_256_def bg_256_def
      split: sum.splits)

lemma run_style:
  assumes "list_all is_setter cs" and "run cs (this, out) = Inr (this', out')"
  shows "style this' = style this @ map font_code (filter is_font cs)"
  using assms
proof (induction cs arbitrary: this out)
  case Nil
  then show ?case by simp
next
  case (Cons c cs)
  from Cons.prems(1) have c: "is_setter c" and cs: "list_all is_setter cs" by simp_all
  from Cons.prems(2) obtain this1 out1 where
    1: "invoke c (this, out) = Inr (this1, out1)" and 2: "run cs (this1, out1) = Inr (this', out')"
    by (auto split: sum.splits)
  from invoke_style [OF c 1] Cons.IH [OF cs 2] show ?case by simp
qed

lemmas chain_simps = builder_simps wrapper_defs text_rgb_def bg_rgb_def text_256_def bg_256_def
  reset_def log_def parse_simps print_simps

text \<open>The seven tests of the repository's test file.\<close>

lemma deno_tests:
  "render [Text_blue] ''Hello, world!'' = Inr ([ESC] @ ''[34mHello, world!'' @ [ESC] @ ''[0m'')"
  "render [Bg_blue] ''Hello, world!'' = Inr ([ESC] @ ''[44mHello, world!'' @ [ESC] @ ''[0m'')"
  "render [Font_blink] ''Hello, world!'' = Inr ([ESC] @ ''[5mHello, world!'' @ [ESC] @ ''[0m'')"
  "render [Text_blue, Font_blink] ''Hello, world!'' = Inr ([ESC] @ ''[34;5mHello, world!'' @ [ESC] @ ''[0m'')"
  "render [Text_blue, Bg_blue] ''Hello, world!'' = Inr ([ESC] @ ''[34;44mHello, world!'' @ [ESC] @ ''[0m'')"
  "render [Bg_blue, Font_blink] ''Hello, world!'' = Inr ([ESC] @ ''[5;44mHello, world!'' @ [ESC] @ ''[0m'')"
  "render [Text_blue, Bg_blue, Font_blink] ''Hello, world!'' =
     Inr ([ESC] @ ''[34;5;44mHello, world!'' @ [ESC] @ ''[0m'')"
  by (simp_all add: chain_simps)

subsection \<open>Reading back what was printed in radix 16\<close>

lemma mathInt_append: "mathInt R acc (xs @ ys) = mathInt R (mathInt R acc xs) ys"
  by (induction xs arbitrary: acc) simp_all

lemma digitValue_digitChar: "d < 36 \<Longrightarrow> digitValue (digitChar d) = Some d"
  by (auto simp: digitValue_def digitChar_def)

lemma mathInt_digitsOf:
  assumes "2 \<le> R" "R \<le> 36"
  shows "mathInt R 0 (digitsOf R n) = n"
  using assms
proof (induction R n rule: digitsOf.induct)
  case (1 R n)
  show ?case
  proof (cases "n < R")
    case True
    then have "digitValue (digitChar n) = Some n" using "1.prems" by (intro digitValue_digitChar) simp
    with True show ?thesis by (subst digitsOf.simps) simp
  next
    case False
    have d: "digitValue (digitChar (n mod R)) = Some (n mod R)"
      using "1.prems" by (intro digitValue_digitChar) (simp add: less_le_trans [OF mod_less_divisor])
    have "mathInt R 0 (digitsOf R (n div R)) = n div R"
      using False "1.prems" by (intro "1.IH") auto
    with False "1.prems" d show ?thesis
      by (subst digitsOf.simps) (simp add: mathInt_append)
  qed
qed

lemma digitsOf_all_digits:
  assumes "2 \<le> R" "R \<le> 36"
  shows "list_all (isRadixDigit R) (digitsOf R n)"
  using assms
proof (induction R n rule: digitsOf.induct)
  case (1 R n)
  show ?case
  proof (cases "n < R")
    case True
    then have "digitValue (digitChar n) = Some n" using "1.prems" by (intro digitValue_digitChar) simp
    with True show ?thesis by (subst digitsOf.simps) (simp add: isRadixDigit_def)
  next
    case False
    have d: "digitValue (digitChar (n mod R)) = Some (n mod R)"
      using "1.prems" by (intro digitValue_digitChar) (simp add: less_le_trans [OF mod_less_divisor])
    have "list_all (isRadixDigit R) (digitsOf R (n div R))"
      using False "1.prems" by (intro "1.IH") auto
    with False "1.prems" d show ?thesis
      by (subst digitsOf.simps) (simp add: isRadixDigit_def)
  qed
qed

lemma hex_digit_plain:
  assumes "isRadixDigit 16 c"
  shows "\<not> isWhiteSpace c" "c \<noteq> CHR ''+''" "c \<noteq> CHR ''-''" "c \<noteq> CHR ''x''" "c \<noteq> CHR ''X''"
    "c \<noteq> CHR ''#''"
  using assms
  by (auto simp: isRadixDigit_def digitValue_def isWhiteSpace_def split: if_splits)

text \<open>On a non-empty string of hex digits \<open>parseInt\<close> reads the whole string.\<close>

lemma parseInt_hex_digits:
  assumes "list_all (isRadixDigit 16) zs" "zs \<noteq> []"
  shows "parseInt zs 16 = toNumber (int (mathInt 16 0 zs))"
proof -
  obtain c cs where zs: "zs = c # cs" using assms(2) by (cases zs) auto
  have c: "isRadixDigit 16 c" using assms(1) by (simp add: zs)
  have w: "dropWhile isWhiteSpace zs = zs" using hex_digit_plain(1) [OF c] by (simp add: zs)
  have t1: "take (Suc 0) zs \<noteq> ''+''" "take (Suc 0) zs \<noteq> ''-''"
    using hex_digit_plain(2,3) [OF c] by (simp_all add: zs)
  have t2: "take 2 zs \<noteq> ''0x''" "take 2 zs \<noteq> ''0X''"
  proof -
    show "take 2 zs \<noteq> ''0x''"
    proof (cases cs)
      case Nil
      then show ?thesis by (simp add: zs)
    next
      case (Cons c' cs')
      then have "isRadixDigit 16 c'" using assms(1) by (simp add: zs)
      from hex_digit_plain(4) [OF this] show ?thesis by (simp add: zs Cons)
    qed
    show "take 2 zs \<noteq> ''0X''"
    proof (cases cs)
      case Nil
      then show ?thesis by (simp add: zs)
    next
      case (Cons c' cs')
      then have "isRadixDigit 16 c'" using assms(1) by (simp add: zs)
      from hex_digit_plain(5) [OF this] show ?thesis by (simp add: zs Cons)
    qed
  qed
  have tw: "takeWhile (isRadixDigit 16) zs = zs"
    using assms(1) by (simp add: takeWhile_eq_all_conv list_all_iff)
  show ?thesis
    unfolding parseInt_def Let_def w
    by (simp add: t1 t2 tw assms(2))
qed

lemma mathInt_zeros: "mathInt 16 0 (replicate k CHR ''0'') = 0"
  by (induction k) (simp_all add: digitValue_def)

lemma padStart_digits:
  assumes "list_all (isRadixDigit 16) ds"
  shows "list_all (isRadixDigit 16) (padStart 6 ds)" "mathInt 16 0 (padStart 6 ds) = mathInt 16 0 ds"
proof -
  have z: "isRadixDigit 16 CHR ''0''" by (simp add: isRadixDigit_def digitValue_def)
  show "list_all (isRadixDigit 16) (padStart 6 ds)"
    using assms z by (auto simp: padStart_def list_all_iff)
  show "mathInt 16 0 (padStart 6 ds) = mathInt 16 0 ds"
    by (simp add: padStart_def mathInt_append mathInt_zeros)
qed

lemma sint_small: "0 \<le> n \<Longrightarrow> n < 2 ^ 24 \<Longrightarrow> sint (word_of_int n :: 32 word) = n"
proof -
  assume a: "0 \<le> n" "n < 2 ^ 24"
  have "signed_take_bit 31 n = n"
    using a by (intro signed_take_bit_int_eq_self) simp_all
  then show ?thesis by (simp only: sint_sbintrunc') simp
qed

lemma HexToRGB_hex_digits:
  assumes "list_all (isRadixDigit 16) zs" "zs \<noteq> []" "mathInt 16 0 zs < 2 ^ 24"
  shows "HexToRGB zs =
    Inr (RGB (Finite (int (mathInt 16 0 zs) div 65536)) (Finite (int (mathInt 16 0 zs) div 256 mod 256))
          (Finite (int (mathInt 16 0 zs) mod 256)))"
proof -
  obtain c cs where zs: "zs = c # cs" using assms(2) by (cases zs) auto
  have "isRadixDigit 16 c" using assms(1) by (simp add: zs)
  from hex_digit_plain(6) [OF this] have np: "\<not> hexPattern zs" by (simp add: hexPattern_def zs)
  have b: "int (mathInt 16 0 zs) < 2 ^ 24" using assms(3) by simp
  have tn: "toNumber (int (mathInt 16 0 zs)) = Finite (int (mathInt 16 0 zs))"
    using b by (intro toNumber_small) simp
  have si: "sint (word_of_int (int (mathInt 16 0 zs)) :: 32 word) = int (mathInt 16 0 zs)"
    using b by (intro sint_small) simp_all
  show ?thesis
    by (simp only: HexToRGB_channels [OF np] parseInt_hex_digits [OF assms(1,2)] tn ToInt32.simps si Let_def)
qed

lemma text_hex_number:
  assumes "0 \<le> n" "n < 2 ^ 24"
  shows "text_hex (Num (Finite n)) this =
    Inr (this\<lparr>color := ''38;2;'' @
      RGB (Finite (n div 65536)) (Finite (n div 256 mod 256)) (Finite (n mod 256))\<rparr>)"
proof -
  let ?ds = "digitsOf 16 (nat n)"
  have ds: "list_all (isRadixDigit 16) ?ds" by (intro digitsOf_all_digits) simp_all
  have m: "mathInt 16 0 ?ds = nat n" by (intro mathInt_digitsOf) simp_all
  have h: "Hex (Num (Finite n)) = padStart 6 ?ds" using assms(1) by simp
  have ne: "padStart 6 ?ds \<noteq> []"
    using digitsOf_Cons [of 16 "nat n"] by (auto simp: padStart_def)
  have v: "mathInt 16 0 (padStart 6 ?ds) = nat n" by (simp only: padStart_digits(2) [OF ds] m)
  have lt: "mathInt 16 0 (padStart 6 ?ds) < 2 ^ 24" using assms by (simp add: v nat_less_iff)
  have i: "int (mathInt 16 0 (padStart 6 ?ds)) = n" using assms(1) by (simp add: v)
  show ?thesis
    unfolding text_hex_def h
    using HexToRGB_hex_digits [OF padStart_digits(1) [OF ds] ne lt]
    by (simp add: i)
qed

lemma text_hex_six_digits:
  assumes "length s = 6" "list_all isHexDigit s"
  shows "text_hex (Str s) this =
    Inr (this\<lparr>color := ''38;2;'' @
      RGB (Finite (int (mathInt 16 0 s) div 65536)) (Finite (int (mathInt 16 0 s) div 256 mod 256))
        (Finite (int (mathInt 16 0 s) mod 256))\<rparr>)"
proof -
  have ds: "list_all (isRadixDigit 16) s" using assms(2) by (simp add: list_all_iff isHexDigit_def)
  have ne: "s \<noteq> []" using assms(1) by auto
  obtain c cs where s: "s = c # cs" using ne by (cases s) auto
  have "isRadixDigit 16 c" using ds by (simp add: s)
  from hex_digit_plain(6) [OF this] have h: "Hex (Str s) = s"
    using assms(1) by (simp add: s stripHash_def padStart_def)
  have "mathInt 16 0 s < 16 ^ length s" using ds
  proof (induction s rule: rev_induct)
    case Nil
    then show ?case by simp
  next
    case (snoc x xs)
    then obtain d where d: "digitValue x = Some d" "d < 16"
      by (auto simp: isRadixDigit_def split: option.splits)
    from snoc have "mathInt 16 0 xs < 16 ^ length xs" by simp
    then have "mathInt 16 0 xs * 16 + d < 16 ^ length xs * 16"
      using d(2) by simp
    then show ?case by (simp add: mathInt_append d)
  qed
  then have lt: "mathInt 16 0 s < 2 ^ 24" by (simp add: assms(1))
  show ?thesis
    unfolding text_hex_def h
    using HexToRGB_hex_digits [OF ds ne lt] by simp
qed

subsection \<open>Which input the hex setters throw on\<close>

text \<open>
  With the test of the pattern as the code has it, the hex setters throw exactly on a string
  made of \<open>##\<close> and six hex digits. All other input is accepted, and accepted input that
  \<open>parseInt\<close> reads as \<open>NaN\<close> gives the channels \<open>0;0;0\<close>: the bitwise operators read \<open>NaN\<close>
  as \<open>0\<close>.
\<close>

lemma hex_setters_raise_iff:
  "(isl (text_hex hex this) \<longleftrightarrow>
      (\<exists>ds. hex = Str (''##'' @ ds) \<and> length ds = 6 \<and> list_all isHexDigit ds)) \<and>
   (isl (bg_hex hex this) \<longleftrightarrow>
      (\<exists>ds. hex = Str (''##'' @ ds) \<and> length ds = 6 \<and> list_all isHexDigit ds)) \<and>
   text_hex hex this \<noteq> Inl InvalidColorCode \<and>
   bg_hex hex this \<noteq> Inl InvalidColorCode \<and>
   (\<not> isl (text_hex hex this) \<and> parseInt (Hex hex) 16 = NaN \<longrightarrow>
      text_hex hex this = Inr (this\<lparr>color := ''38;2;0;0;0''\<rparr>) \<and>
      bg_hex hex this = Inr (this\<lparr>bgColor := ''48;2;0;0;0''\<rparr>))"
proof -
  have t: "isl (text_hex hex this) \<longleftrightarrow> hexPattern (Hex hex)"
    using HexToRGB_isl [of "Hex hex"] by (cases "HexToRGB (Hex hex)") (simp_all add: text_hex_def)
  have b: "isl (bg_hex hex this) \<longleftrightarrow> hexPattern (Hex hex)"
    using HexToRGB_isl [of "Hex hex"] by (cases "HexToRGB (Hex hex)") (simp_all add: bg_hex_def)
  have e: "text_hex hex this \<noteq> Inl InvalidColorCode \<and> bg_hex hex this \<noteq> Inl InvalidColorCode"
    by (cases "HexToRGB (Hex hex)") (auto simp add: text_hex_def bg_hex_def HexToRGB_def Let_def split: if_splits)
  have n: "text_hex hex this = Inr (this\<lparr>color := ''38;2;0;0;0''\<rparr>) \<and>
      bg_hex hex this = Inr (this\<lparr>bgColor := ''48;2;0;0;0''\<rparr>)"
    if "\<not> isl (text_hex hex this)" "parseInt (Hex hex) 16 = NaN"
  proof -
    from that(1) have "\<not> hexPattern (Hex hex)" by (simp add: t)
    then have "HexToRGB (Hex hex) = Inr ''0;0;0''" using that(2) by (rule HexToRGB_NaN)
    then show ?thesis by (simp add: text_hex_def bg_hex_def)
  qed
  show ?thesis
    using e n by (simp only: t b hexPattern_Hex) blast
qed

lemma hex_setters_raise_iff_example:
  "\<not> isl (text_hex (Str ''#nothex'') (new_CLW ''X'')) \<and>
   parseInt (Hex (Str ''#nothex'')) 16 = NaN \<and>
   text_hex (Str ''#nothex'') (new_CLW ''X'') = Inr ((new_CLW ''X'')\<lparr>color := ''38;2;0;0;0''\<rparr>) \<and>
   bg_hex (Str ''#nothex'') (new_CLW ''X'') = Inr ((new_CLW ''X'')\<lparr>bgColor := ''48;2;0;0;0''\<rparr>)"
proof -
  have p: "parseInt (Hex (Str ''#nothex'')) 16 = NaN"
    by (simp add: padStart_def stripHash_def parse_simps)
  have d: "\<not> (\<exists>ds. Str ''#nothex'' = Str (''##'' @ ds) \<and> length ds = 6 \<and> list_all isHexDigit ds)"
    by simp
  show ?thesis
    using hex_setters_raise_iff [of "Str ''#nothex''" "new_CLW ''X''"] p d by blast
qed

section \<open>The claims\<close>

subsection \<open>Hex input\<close>

text \<open>
  C1. The specification has the hex setters raise \<open>InvalidHexColor\<close> exactly when the input
  does not parse as a hex numeral. The code does not: on the input \<open>"zzzzzz"\<close>, which has no
  hex digit, both setters return and store the channels \<open>0;0;0\<close>. The test of the pattern in
  \<open>HexToRGB\<close> is inverted, and \<open>Hex\<close> has already removed the \<open>#\<close> the pattern asks for.
\<close>

theorem hex_setter_accepts_malformed:
  "text_hex (Str ''zzzzzz'') this = Inr (this\<lparr>color := ''38;2;0;0;0''\<rparr>) \<and>
   bg_hex (Str ''zzzzzz'') this = Inr (this\<lparr>bgColor := ''48;2;0;0;0''\<rparr>)"
proof -
  have "parseInt ''zzzzzz'' 16 = NaN" by (simp add: parse_simps)
  moreover have "\<not> hexPattern ''zzzzzz''" by (simp add: hexPattern_def)
  ultimately have "HexToRGB ''zzzzzz'' = Inr ''0;0;0''" by (intro HexToRGB_NaN)
  then show ?thesis by (simp add: text_hex_def bg_hex_def padStart_def stripHash_def)
qed

text \<open>
  C4. \<open>text_hex(0xFF0000)\<close> stores and renders the channel triple \<open>255;0;0\<close>, and
  \<open>text_hex("00ff00")\<close> the triple \<open>0;255;0\<close>. For every number \<open>n\<close> of 24 bits and for
  every string of six hex digits, red is bits 16 to 23, green bits 8 to 15 and blue bits 0
  to 7 of the value. In general, whenever the setter does not throw, red is the parsed
  value (read as a 32-bit integer) shifted right by 16 bits, green its bits 8 to 15 and blue
  its bits 0 to 7.
\<close>

theorem hex_decoding:
  "text_hex (Num (Finite 0xFF0000)) this = Inr (this\<lparr>color := ''38;2;255;0;0''\<rparr>) \<and>
   text_hex (Str ''00ff00'') this = Inr (this\<lparr>color := ''38;2;0;255;0''\<rparr>) \<and>
   render [Text_hex (Num (Finite 0xFF0000))] ''X'' = Inr ([ESC] @ ''[38;2;255;0;0mX'' @ [ESC] @ ''[0m'') \<and>
   render [Text_hex (Str ''00ff00'')] ''X'' = Inr ([ESC] @ ''[38;2;0;255;0mX'' @ [ESC] @ ''[0m'') \<and>
   (0 \<le> n \<and> n < 2 ^ 24 \<longrightarrow>
      text_hex (Num (Finite n)) this =
        Inr (this\<lparr>color := ''38;2;'' @
          RGB (Finite (n div 65536)) (Finite (n div 256 mod 256)) (Finite (n mod 256))\<rparr>)) \<and>
   (length s = 6 \<and> list_all isHexDigit s \<longrightarrow>
      text_hex (Str s) this =
        Inr (this\<lparr>color := ''38;2;'' @
          RGB (Finite (int (mathInt 16 0 s) div 65536)) (Finite (int (mathInt 16 0 s) div 256 mod 256))
            (Finite (int (mathInt 16 0 s) mod 256))\<rparr>)) \<and>
   (\<not> hexPattern (Hex hex) \<longrightarrow>
      text_hex hex this =
        (let v = sint (ToInt32 (parseInt (Hex hex) 16))
         in Inr (this\<lparr>color := ''38;2;'' @
              RGB (Finite (v div 65536)) (Finite (v div 256 mod 256)) (Finite (v mod 256))\<rparr>)))"
proof -
  have a: "text_hex (Num (Finite 0xFF0000)) this = Inr (this\<lparr>color := ''38;2;255;0;0''\<rparr>)" for this
    by (simp add: text_hex_def hex_simps parse_simps print_simps)
  have b: "text_hex (Str ''00ff00'') this = Inr (this\<lparr>color := ''38;2;0;255;0''\<rparr>)" for this
    by (simp add: text_hex_def hex_simps parse_simps print_simps)
  have c: "render [Text_hex (Num (Finite 0xFF0000))] ''X'' = Inr ([ESC] @ ''[38;2;255;0;0mX'' @ [ESC] @ ''[0m'')"
    by (simp add: render_def throwing_def a) (simp add: new_CLW_def toString_def)
  have d: "render [Text_hex (Str ''00ff00'')] ''X'' = Inr ([ESC] @ ''[38;2;0;255;0mX'' @ [ESC] @ ''[0m'')"
    by (simp add: render_def throwing_def b) (simp add: new_CLW_def toString_def)
  have e: "text_hex hex this =
        (let v = sint (ToInt32 (parseInt (Hex hex) 16))
         in Inr (this\<lparr>color := ''38;2;'' @
              RGB (Finite (v div 65536)) (Finite (v div 256 mod 256)) (Finite (v mod 256))\<rparr>))"
    if "\<not> hexPattern (Hex hex)"
    by (simp add: text_hex_def HexToRGB_channels [OF that] Let_def)
  show ?thesis
    using a b c d e text_hex_number [of n this] text_hex_six_digits [of s this] by blast
qed

theorem hex_decoding_witness:
  "text_hex (Num (Finite 0x0A141E)) (new_CLW ''X'') = Inr ((new_CLW ''X'')\<lparr>color := ''38;2;10;20;30''\<rparr>) \<and>
   text_hex (Str ''1a2b3c'') (new_CLW ''X'') = Inr ((new_CLW ''X'')\<lparr>color := ''38;2;26;43;60''\<rparr>) \<and>
   \<not> hexPattern (Hex (Str ''#1a2b3c'')) \<and>
   text_hex (Str ''#1a2b3c'') (new_CLW ''X'') = Inr ((new_CLW ''X'')\<lparr>color := ''38;2;26;43;60''\<rparr>)"
proof -
  have n: "(0::int) \<le> 0x0A141E \<and> (0x0A141E::int) < 2 ^ 24" by simp
  have s: "length ''1a2b3c'' = 6 \<and> list_all isHexDigit ''1a2b3c''"
    by (simp add: isHexDigit_def isRadixDigit_def digitValue_def)
  have m: "int (mathInt 16 0 ''1a2b3c'') = 1715004" by (simp add: digitValue_def)
  have h: "Hex (Str ''#1a2b3c'') = ''1a2b3c''" by (simp add: padStart_def stripHash_def)
  have np: "\<not> hexPattern (Hex (Str ''#1a2b3c''))" unfolding h by (simp add: hexPattern_def)
  have v: "sint (ToInt32 (parseInt (Hex (Str ''#1a2b3c'')) 16)) = 1715004"
    unfolding h by (simp add: parse_simps)
  have c1: "RGB (Finite (1715004 div 65536)) (Finite (1715004 div 256 mod 256)) (Finite (1715004 mod 256)) =
      ''26;43;60''"
    by (simp add: RGB_def print_simps)
  have c2: "RGB (Finite (0x0A141E div 65536)) (Finite (0x0A141E div 256 mod 256)) (Finite (0x0A141E mod 256)) =
      ''10;20;30''"
    by (simp add: RGB_def print_simps)
  show ?thesis
    using hex_decoding [of "new_CLW ''X''" "0x0A141E" "''1a2b3c''" "Str ''#1a2b3c''"] n s np
    by (simp only: m v Let_def c1 c2) simp
qed


text \<open>
  C10. A string of three hex digits, with or without a leading \<open>#\<close>, is normalised by
  \<open>Hex\<close> to three zeros followed by the digits, not by doubling each digit; so the red
  channel is \<open>0\<close> and the digits fill green and blue, and \<open>text_hex("fff")\<close> stores
  \<open>0;15;255\<close>.
\<close>

theorem hex_three_digits_zero_padded:
  assumes "length s = 3" and "list_all isHexDigit s"
  shows "Hex (Str s) = ''000'' @ s \<and> Hex (Str (''#'' @ s)) = ''000'' @ s \<and>
         text_hex (Str s) this =
           Inr (this\<lparr>color := ''38;2;'' @ RGB (Finite 0) (Finite (int (mathInt 16 0 s) div 256))
                                            (Finite (int (mathInt 16 0 s) mod 256))\<rparr>) \<and>
         text_hex (Str ''fff'') this = Inr (this\<lparr>color := ''38;2;0;15;255''\<rparr>)"
proof -
  obtain a b c where s: "s = [a, b, c]"
    using assms(1) by (cases s; cases "tl s"; cases "tl (tl s)") auto
  have d: "isHexDigit a" "isHexDigit b" "isHexDigit c" using assms(2) by (simp_all add: s)
  have a: "a \<noteq> CHR ''#''" using d(1) by (auto simp: isHexDigit_def isRadixDigit_def digitValue_def)
  have h1: "Hex (Str s) = ''000'' @ s"
    using a by (simp add: s padStart_def stripHash_def numeral_3_eq_3)
  have h2: "Hex (Str (''#'' @ s)) = ''000'' @ s"
    by (simp add: s padStart_def stripHash_def numeral_3_eq_3)
  have f: "text_hex (Str ''fff'') this = Inr (this\<lparr>color := ''38;2;0;15;255''\<rparr>)"
    by (simp add: text_hex_def hex_simps parse_simps print_simps)
  let ?t = "CHR ''0'' # CHR ''0'' # CHR ''0'' # s"
  from d obtain x y z where v: "digitValue a = Some x" "x < 16" "digitValue b = Some y" "y < 16"
      "digitValue c = Some z" "z < 16"
    by (auto simp: isHexDigit_def isRadixDigit_def split: option.splits)
  have z0: "digitValue CHR ''0'' = Some 0" by (simp add: digitValue_def)
  have m: "mathInt 16 0 s = (x * 16 + y) * 16 + z" by (simp add: s v)
  have m0: "mathInt 16 0 ?t = mathInt 16 0 s" by (simp add: s v z0)
  have lt: "mathInt 16 0 s < 4096" using v by (simp add: m)
  have r0: "isRadixDigit 16 CHR ''0''" by (simp add: isRadixDigit_def z0)
  have tk: "takeWhile (isRadixDigit 16) s = s"
    by (simp add: s isRadixDigit_def v)
  have w0: "\<not> isWhiteSpace CHR ''0''" by (simp add: isWhiteSpace_def)
  have tn: "toNumber (int (mathInt 16 0 s)) = Finite (int (mathInt 16 0 s))"
    using lt by (intro toNumber_small) simp
  have pi: "parseInt ?t 16 = Finite (int (mathInt 16 0 s))"
    by (simp add: parseInt_def w0 r0 z0 tk tn)
  have np: "\<not> hexPattern ?t" by (simp add: hexPattern_def)
  have si: "sint (word_of_int (int (mathInt 16 0 s)) :: 32 word) = int (mathInt 16 0 s)"
  proof -
    have "signed_take_bit 31 (int (mathInt 16 0 s)) = int (mathInt 16 0 s)"
      using lt by (intro signed_take_bit_int_eq_self) simp_all
    then show ?thesis by (simp only: sint_sbintrunc') simp
  qed
  have r: "int (mathInt 16 0 s) div 65536 = 0" using lt by simp
  have g: "int (mathInt 16 0 s) div 256 mod 256 = int (mathInt 16 0 s) div 256" using lt by simp
  have "HexToRGB ?t = Inr (RGB (Finite 0) (Finite (int (mathInt 16 0 s) div 256))
                                            (Finite (int (mathInt 16 0 s) mod 256)))"
    by (simp only: HexToRGB_channels [OF np] pi ToInt32.simps si Let_def r g)
  then have gen: "text_hex (Str s) this =
           Inr (this\<lparr>color := ''38;2;'' @ RGB (Finite 0) (Finite (int (mathInt 16 0 s) div 256))
                                            (Finite (int (mathInt 16 0 s) mod 256))\<rparr>)"
    using h1 by (simp add: text_hex_def)
  show ?thesis using h1 h2 gen f by blast
qed

theorem hex_three_digits_zero_padded_witness:
  "Hex (Str ''0af'') = ''0000af'' \<and> Hex (Str ''#0af'') = ''0000af'' \<and>
   text_hex (Str ''0af'') (new_CLW ''X'') = Inr ((new_CLW ''X'')\<lparr>color := ''38;2;0;0;175''\<rparr>)"
proof -
  have l: "length ''0af'' = 3" by simp
  have h: "list_all isHexDigit ''0af''" by (simp add: isHexDigit_def isRadixDigit_def digitValue_def)
  have m: "mathInt 16 0 ''0af'' = 175" by (simp add: digitValue_def)
  have r: "RGB (Finite 0) (Finite (int (mathInt 16 0 ''0af'') div 256))
             (Finite (int (mathInt 16 0 ''0af'') mod 256)) = ''0;0;175''"
    unfolding m by (simp add: RGB_def print_simps)
  show ?thesis
    using hex_three_digits_zero_padded [OF l h, of "new_CLW ''X''"]
    unfolding r by simp
qed

subsection \<open>Named colours\<close>

text \<open>
  C3. For every named colour, the enumeration's value is the decimal form of a code
  \<open>n\<close>, in 30..37 for the eight base colours and in 90..97 for the eight bright ones;
  setting the colour as foreground on the text \<open>X\<close> renders \<open>ESC[n m X ESC[0m\<close>, and setting it
  as background renders the same with \<open>n + 10\<close>. Each of the fifteen public foreground
  setters and of the fifteen public background setters is the private setter at its own
  colour, on every builder, and renders that colour's code on the text \<open>X\<close> (the class has
  no public setter for \<open>BRIGHT_BLACK\<close>).
\<close>

theorem named_color_codes:
  "(\<exists>n. parseInt (Color_value c) 0 = Finite n \<and>
       numberToString 10 (Finite n) = Color_value c \<and>
       (c \<in> {BLACK, RED, GREEN, YELLOW, BLUE, MAGENTA, CYAN, WHITE} \<and> 30 \<le> n \<and> n \<le> 37 \<or>
        c \<in> {BRIGHT_BLACK, BRIGHT_RED, BRIGHT_GREEN, BRIGHT_YELLOW, BRIGHT_BLUE, BRIGHT_MAGENTA,
               BRIGHT_CYAN, BRIGHT_WHITE} \<and> 90 \<le> n \<and> n \<le> 97) \<and>
       map_sum id toString (text_color c (new_CLW ''X'')) =
         Inr ([ESC] @ ''['' @ numberToString 10 (Finite n) @ ''mX'' @ [ESC] @ ''[0m'') \<and>
       map_sum id toString (bg c (new_CLW ''X'')) =
         Inr ([ESC] @ ''['' @ numberToString 10 (Finite (n + 10)) @ ''mX'' @ [ESC] @ ''[0m'')) \<and>
   map (\<lambda>f. f this)
      [text_black, text_red, text_green, text_yellow, text_blue, text_magenta,
       text_cyan, text_white, text_bright_red, text_bright_green, text_bright_yellow,
       text_bright_blue, text_bright_magenta, text_bright_cyan, text_bright_white] =
   map (\<lambda>k. text_color k this)
      [BLACK, RED, GREEN, YELLOW, BLUE, MAGENTA, CYAN, WHITE, BRIGHT_RED, BRIGHT_GREEN,
       BRIGHT_YELLOW, BRIGHT_BLUE, BRIGHT_MAGENTA, BRIGHT_CYAN, BRIGHT_WHITE] \<and>
   map (\<lambda>f. f this)
      [bg_black, bg_red, bg_green, bg_yellow, bg_blue, bg_magenta, bg_cyan, bg_white,
       bg_bright_red, bg_bright_green, bg_bright_yellow, bg_bright_blue,
       bg_bright_magenta, bg_bright_cyan, bg_bright_white] =
   map (\<lambda>k. bg k this)
      [BLACK, RED, GREEN, YELLOW, BLUE, MAGENTA, CYAN, WHITE, BRIGHT_RED, BRIGHT_GREEN,
       BRIGHT_YELLOW, BRIGHT_BLUE, BRIGHT_MAGENTA, BRIGHT_CYAN, BRIGHT_WHITE] \<and>
   map (\<lambda>c. render [c] ''X'')
      [Text_black, Text_red, Text_green, Text_yellow, Text_blue, Text_magenta,
       Text_cyan, Text_white, Text_bright_red, Text_bright_green, Text_bright_yellow,
       Text_bright_blue, Text_bright_magenta, Text_bright_cyan, Text_bright_white] =
   map (\<lambda>code. Inr ([ESC] @ ''['' @ code @ ''mX'' @ [ESC] @ ''[0m''))
      [''30'', ''31'', ''32'', ''33'', ''34'', ''35'', ''36'', ''37'', ''91'', ''92'',
       ''93'', ''94'', ''95'', ''96'', ''97''] \<and>
   map (\<lambda>c. render [c] ''X'')
      [Bg_black, Bg_red, Bg_green, Bg_yellow, Bg_blue, Bg_magenta, Bg_cyan, Bg_white,
       Bg_bright_red, Bg_bright_green, Bg_bright_yellow, Bg_bright_blue,
       Bg_bright_magenta, Bg_bright_cyan, Bg_bright_white] =
   map (\<lambda>code. Inr ([ESC] @ ''['' @ code @ ''mX'' @ [ESC] @ ''[0m''))
      [''40'', ''41'', ''42'', ''43'', ''44'', ''45'', ''46'', ''47'', ''101'', ''102'',
       ''103'', ''104'', ''105'', ''106'', ''107'']"
proof -
  have priv: "\<exists>n. parseInt (Color_value c) 0 = Finite n \<and>
       numberToString 10 (Finite n) = Color_value c \<and>
       (c \<in> {BLACK, RED, GREEN, YELLOW, BLUE, MAGENTA, CYAN, WHITE} \<and> 30 \<le> n \<and> n \<le> 37 \<or>
        c \<in> {BRIGHT_BLACK, BRIGHT_RED, BRIGHT_GREEN, BRIGHT_YELLOW, BRIGHT_BLUE, BRIGHT_MAGENTA,
               BRIGHT_CYAN, BRIGHT_WHITE} \<and> 90 \<le> n \<and> n \<le> 97) \<and>
       map_sum id toString (text_color c (new_CLW ''X'')) =
         Inr ([ESC] @ ''['' @ numberToString 10 (Finite n) @ ''mX'' @ [ESC] @ ''[0m'') \<and>
       map_sum id toString (bg c (new_CLW ''X'')) =
         Inr ([ESC] @ ''['' @ numberToString 10 (Finite (n + 10)) @ ''mX'' @ [ESC] @ ''[0m'')"
  proof -
    obtain n where n: "parseInt (Color_value c) 0 = Finite n"
        "numberToString 10 (Finite n) = Color_value c"
        "c \<in> {BLACK, RED, GREEN, YELLOW, BLUE, MAGENTA, CYAN, WHITE} \<and> 30 \<le> n \<and> n \<le> 37 \<or>
         c \<in> {BRIGHT_BLACK, BRIGHT_RED, BRIGHT_GREEN, BRIGHT_YELLOW, BRIGHT_BLUE, BRIGHT_MAGENTA,
                BRIGHT_CYAN, BRIGHT_WHITE} \<and> 90 \<le> n \<and> n \<le> 97"
      using Color_value_parse by blast
    from n(3) have r: "30 \<le> n" "n \<le> 97" by auto
    have tn: "toNumber n = Finite n" "toNumber (n + 10) = Finite (n + 10)"
      using r by (simp_all add: toNumber_small)
    have fg: "colorToAnsii c False = Inr (numberToString 10 (Finite n))"
      by (simp add: colorToAnsii_def isNaN_def n(1) tn)
    have bk: "colorToAnsii c True = Inr (numberToString 10 (Finite (n + 10)))"
      by (simp add: colorToAnsii_def isNaN_def n(1) tn)
    have ne: "numberToString 10 (Finite n) \<noteq> []" "numberToString 10 (Finite (n + 10)) \<noteq> []"
      by (rule numberToString_nonempty, simp)+
    have t: "map_sum id toString (text_color c (new_CLW ''X'')) =
           Inr ([ESC] @ ''['' @ numberToString 10 (Finite n) @ ''mX'' @ [ESC] @ ''[0m'')"
      using toString_color_only [OF ne(1), of "''X''"] by (simp add: text_color_def fg new_CLW_def)
    have b: "map_sum id toString (bg c (new_CLW ''X'')) =
           Inr ([ESC] @ ''['' @ numberToString 10 (Finite (n + 10)) @ ''mX'' @ [ESC] @ ''[0m'')"
      using toString_bgColor_only [OF ne(2), of "''X''"] by (simp add: bg_def bk new_CLW_def)
    show ?thesis using n t b by blast
  qed
  have wt: "map (\<lambda>f. f this)
      [text_black, text_red, text_green, text_yellow, text_blue, text_magenta,
       text_cyan, text_white, text_bright_red, text_bright_green, text_bright_yellow,
       text_bright_blue, text_bright_magenta, text_bright_cyan, text_bright_white] =
   map (\<lambda>k. text_color k this)
      [BLACK, RED, GREEN, YELLOW, BLUE, MAGENTA, CYAN, WHITE, BRIGHT_RED, BRIGHT_GREEN,
       BRIGHT_YELLOW, BRIGHT_BLUE, BRIGHT_MAGENTA, BRIGHT_CYAN, BRIGHT_WHITE]"
    by (simp add: wrapper_defs)
  have wb: "map (\<lambda>f. f this)
      [bg_black, bg_red, bg_green, bg_yellow, bg_blue, bg_magenta, bg_cyan, bg_white,
       bg_bright_red, bg_bright_green, bg_bright_yellow, bg_bright_blue,
       bg_bright_magenta, bg_bright_cyan, bg_bright_white] =
   map (\<lambda>k. bg k this)
      [BLACK, RED, GREEN, YELLOW, BLUE, MAGENTA, CYAN, WHITE, BRIGHT_RED, BRIGHT_GREEN,
       BRIGHT_YELLOW, BRIGHT_BLUE, BRIGHT_MAGENTA, BRIGHT_CYAN, BRIGHT_WHITE]"
    by (simp add: wrapper_defs)
  have rt: "map (\<lambda>c. render [c] ''X'')
      [Text_black, Text_red, Text_green, Text_yellow, Text_blue, Text_magenta,
       Text_cyan, Text_white, Text_bright_red, Text_bright_green, Text_bright_yellow,
       Text_bright_blue, Text_bright_magenta, Text_bright_cyan, Text_bright_white] =
   map (\<lambda>code. Inr ([ESC] @ ''['' @ code @ ''mX'' @ [ESC] @ ''[0m''))
      [''30'', ''31'', ''32'', ''33'', ''34'', ''35'', ''36'', ''37'', ''91'', ''92'',
       ''93'', ''94'', ''95'', ''96'', ''97'']"
    by (simp add: chain_simps)
  have rb: "map (\<lambda>c. render [c] ''X'')
      [Bg_black, Bg_red, Bg_green, Bg_yellow, Bg_blue, Bg_magenta, Bg_cyan, Bg_white,
       Bg_bright_red, Bg_bright_green, Bg_bright_yellow, Bg_bright_blue,
       Bg_bright_magenta, Bg_bright_cyan, Bg_bright_white] =
   map (\<lambda>code. Inr ([ESC] @ ''['' @ code @ ''mX'' @ [ESC] @ ''[0m''))
      [''40'', ''41'', ''42'', ''43'', ''44'', ''45'', ''46'', ''47'', ''101'', ''102'',
       ''103'', ''104'', ''105'', ''106'', ''107'']"
    by (simp add: chain_simps)
  show ?thesis using priv wt wb rt rb by blast
qed

text \<open>
  C8. For every value of the colour enumeration \<open>parseInt\<close> yields a number, so
  \<open>colorToAnsii\<close> and the two private setters never throw \<open>InvalidColorCode\<close>.
\<close>

theorem named_color_never_invalid:
  "\<not> isNaN (parseInt (Color_value c) 0) \<and>
   (\<exists>code. colorToAnsii c isBg = Inr code) \<and>
   (\<exists>this'. text_color c this = Inr this') \<and>
   (\<exists>this'. bg c this = Inr this')"
proof -
  have n: "\<not> isNaN (parseInt (Color_value c) 0)"
    by (cases c) (simp_all add: isNaN_def parse_simps)
  obtain fg where fg: "colorToAnsii c False = Inr fg" using colorToAnsii_Inr by blast
  obtain bk where bk: "colorToAnsii c True = Inr bk" using colorToAnsii_Inr by blast
  show ?thesis
    using n colorToAnsii_Inr [of c isBg] by (simp add: text_color_def bg_def fg bk)
qed

subsection \<open>Rendering and the builder's state\<close>

text \<open>
  C5. A builder on which no colour and no style is set renders as its text, with no
  escape sequence around it.
\<close>

theorem render_unset_is_text:
  "toString (new_CLW s) = s \<and>
   toString (this\<lparr>color := '''', bgColor := '''', style := []\<rparr>) = str this \<and>
   render [] s = Inr s"
  by (simp add: builder_simps)

text \<open>
  C2. Rendering is not the same under every permutation of the setter calls: two
  different styles render in the order of their calls.
\<close>

theorem render_depends_on_style_order:
  "render [Text_blue, Font_bold, Font_italic, Bg_blue] ''X'' =
     Inr ([ESC] @ ''[34;1;3;44mX'' @ [ESC] @ ''[0m'') \<and>
   render [Text_blue, Font_italic, Font_bold, Bg_blue] ''X'' =
     Inr ([ESC] @ ''[34;3;1;44mX'' @ [ESC] @ ''[0m'') \<and>
   render [Text_blue, Font_bold, Font_italic, Bg_blue] ''X'' \<noteq>
     render [Text_blue, Font_italic, Font_bold, Bg_blue] ''X''"
proof -
  have a: "render [Text_blue, Font_bold, Font_italic, Bg_blue] ''X'' =
     Inr ([ESC] @ ''[34;1;3;44mX'' @ [ESC] @ ''[0m'')"
    by (simp add: chain_simps)
  have b: "render [Text_blue, Font_italic, Font_bold, Bg_blue] ''X'' =
     Inr ([ESC] @ ''[34;3;1;44mX'' @ [ESC] @ ''[0m'')"
    by (simp add: chain_simps)
  show ?thesis unfolding a b by simp
qed

text \<open>
  C2, as amended. Two chains of setter calls that agree on the sequence of their
  foreground setters, on the sequence of their style calls and on the sequence of their
  background setters end in the same builder (or both throw) and render identically,
  however the three kinds are interleaved; a builder with all three set renders its
  parameters in the order foreground, styles, background; and the style list after the
  chain is the one before it followed by the codes of the style calls in the order of the
  calls, so the styles render in the order in which they were appended.
\<close>

theorem render_order_independent:
  assumes "list_all is_setter cs" and "list_all is_setter cs'"
    and "filter is_text cs = filter is_text cs'"
    and "filter is_font cs = filter is_font cs'"
    and "filter is_bg cs = filter is_bg cs'"
  shows "run cs st = run cs' st \<and> render cs s = render cs' s \<and>
    (\<forall>this out. run cs st = Inr (this, out) \<and> color this \<noteq> [] \<and> style this \<noteq> [] \<and> bgColor this \<noteq> []
       \<longrightarrow> toString this =
             [ESC] @ ''['' @ color this @ '';'' @ join '';'' (style this) @ '';'' @ bgColor this @
             ''m'' @ str this @ [ESC] @ ''[0m'') \<and>
    (\<forall>this out. run cs st = Inr (this, out)
       \<longrightarrow> style this = style (fst st) @ map font_code (filter is_font cs))"
proof -
  have eq: "run cs st' = run cs' st'" for st'
    using run_canonical [OF assms(1), of st'] run_canonical [OF assms(2), of st']
    by (simp only: assms(3-5))
  have "render cs s = render cs' s"
    by (simp only: render_def eq)
  moreover have "style this = style (fst st) @ map font_code (filter is_font cs)"
    if "run cs st = Inr (this, out)" for this out
    using run_style [OF assms(1), of "fst st" "snd st" this out] that by simp
  ultimately show ?thesis using eq toString_all_set by blast
qed

theorem render_order_independent_witness:
  "list_all is_setter [Bg_blue, Font_bold, Text_blue, Font_italic] \<and>
   list_all is_setter [Text_blue, Font_bold, Font_italic, Bg_blue] \<and>
   render [Bg_blue, Font_bold, Text_blue, Font_italic] ''Hello, world!'' =
     render [Text_blue, Font_bold, Font_italic, Bg_blue] ''Hello, world!'' \<and>
   render [Text_blue, Font_bold, Font_italic, Bg_blue] ''Hello, world!'' =
     Inr ([ESC] @ ''[34;1;3;44mHello, world!'' @ [ESC] @ ''[0m'') \<and>
   run [Bg_blue, Font_bold, Text_blue, Font_italic] (new_CLW ''Hello, world!'', []) =
     Inr (\<lparr>str = ''Hello, world!'', color = ''34'', bgColor = ''44'', style = [''1'', ''3'']\<rparr>, []) \<and>
   style (new_CLW ''Hello, world!'') @
     map font_code (filter is_font [Bg_blue, Font_bold, Text_blue, Font_italic]) = [''1'', ''3'']"
proof -
  let ?cs = "[Bg_blue, Font_bold, Text_blue, Font_italic]"
  let ?cs' = "[Text_blue, Font_bold, Font_italic, Bg_blue]"
  have 1: "list_all is_setter ?cs" and 2: "list_all is_setter ?cs'"
    by (simp_all add: is_setter_def)
  have 3: "filter is_text ?cs = filter is_text ?cs'"
    and 4: "filter is_font ?cs = filter is_font ?cs'"
    and 5: "filter is_bg ?cs = filter is_bg ?cs'"
    by simp_all
  have v: "render ?cs' ''Hello, world!'' = Inr ([ESC] @ ''[34;1;3;44mHello, world!'' @ [ESC] @ ''[0m'')"
    by (simp add: chain_simps)
  have r: "run ?cs (new_CLW ''Hello, world!'', []) =
     Inr (\<lparr>str = ''Hello, world!'', color = ''34'', bgColor = ''44'', style = [''1'', ''3'']\<rparr>, [])"
    by (simp add: chain_simps)
  have f: "style (new_CLW ''Hello, world!'') @ map font_code (filter is_font ?cs) = [''1'', ''3'']"
    by (simp add: new_CLW_def)
  show ?thesis
    using render_order_independent [OF 1 2 3 4 5, of "(new_CLW ''Hello, world!'', [])" "''Hello, world!''"]
      1 2 v r f by blast
qed

text \<open>
  C6. After any chain of calls that returns, \<open>reset\<close> gives back the builder as it was
  constructed: it renders as its text, and the text is the one given at construction.
\<close>

theorem reset_restores:
  assumes "run cs (this, out) = Inr (this', out')"
  shows "toString (reset this') = str this \<and> str (reset this') = str this \<and>
         reset this' = new_CLW (str this) \<and>
         run (cs @ [Reset]) (this, out) = Inr (new_CLW (str this), out')"
proof -
  have s: "str this' = str this" using run_str [OF assms] by simp
  have r: "reset this' = new_CLW (str this)" by (simp add: reset_def new_CLW_def s)
  have t: "toString (new_CLW (str this)) = str this" by (simp add: toString_def new_CLW_def)
  have a: "run (cs @ [Reset]) (this, out) = Inr (new_CLW (str this), out')"
    by (simp add: run_append assms returning_def r)
  show ?thesis using r t a by (simp add: new_CLW_def)
qed

theorem reset_restores_witness:
  "run [Text_hex (Num (Finite 0xf2f2f2)), Bg_green, Font_bold] (new_CLW ''Deno'', []) =
     Inr (\<lparr>str = ''Deno'', color = ''38;2;242;242;242'', bgColor = ''42'', style = [''1'']\<rparr>, []) \<and>
   toString (reset \<lparr>str = ''Deno'', color = ''38;2;242;242;242'', bgColor = ''42'', style = [''1'']\<rparr>) =
     ''Deno'' \<and>
   run ([Text_hex (Num (Finite 0xf2f2f2)), Bg_green, Font_bold] @ [Reset]) (new_CLW ''Deno'', []) =
     Inr (new_CLW ''Deno'', [])"
proof -
  have r: "run [Text_hex (Num (Finite 0xf2f2f2)), Bg_green, Font_bold] (new_CLW ''Deno'', []) =
     Inr (\<lparr>str = ''Deno'', color = ''38;2;242;242;242'', bgColor = ''42'', style = [''1'']\<rparr>, [])"
    by (simp add: chain_simps hex_simps)
  show ?thesis
    using reset_restores [OF r] r by (simp add: new_CLW_def toString_def)
qed

text \<open>
  C7. No call of the public interface changes the text of the builder: not one call, not
  a chain of calls; \<open>toString\<close> changes nothing and \<open>log\<close> only writes to the console.
\<close>

theorem str_never_modified:
  "(invoke c (this, out) = Inr (this', out') \<longrightarrow> str this' = str this) \<and>
   (run cs (this, out) = Inr (this'', out'') \<longrightarrow> str this'' = str this) \<and>
   invoke ToString (this, out) = Inr (this, out) \<and>
   invoke Log (this, out) = Inr (this, out @ [toString this])"
  using invoke_str [of c "(this, out)" "(this', out')"] run_str [of cs "(this, out)" "(this'', out'')"]
  by (simp add: log_def)

theorem str_never_modified_witness:
  "invoke (Bg_rgb (Finite 1) (Finite 2) (Finite 3)) (new_CLW ''abc'', []) =
     Inr ((new_CLW ''abc'')\<lparr>bgColor := ''48;2;1;2;3''\<rparr>, []) \<and>
   str ((new_CLW ''abc'')\<lparr>bgColor := ''48;2;1;2;3''\<rparr>) = str (new_CLW ''abc'') \<and>
   run [Font_strike, Log, Reset] (new_CLW ''abc'', []) =
     Inr (new_CLW ''abc'', [[ESC] @ ''[9mabc'' @ [ESC] @ ''[0m'']) \<and>
   str (new_CLW ''abc'') = ''abc''"
proof -
  have i: "invoke (Bg_rgb (Finite 1) (Finite 2) (Finite 3)) (new_CLW ''abc'', []) =
     Inr ((new_CLW ''abc'')\<lparr>bgColor := ''48;2;1;2;3''\<rparr>, [])"
    by (simp add: returning_def bg_rgb_def RGB_def print_simps)
  have r: "run [Font_strike, Log, Reset] (new_CLW ''abc'', []) =
     Inr (new_CLW ''abc'', [[ESC] @ ''[9mabc'' @ [ESC] @ ''[0m''])"
    by (simp add: chain_simps)
  show ?thesis
    using str_never_modified [of "Bg_rgb (Finite 1) (Finite 2) (Finite 3)" "new_CLW ''abc''" "[]"
        "(new_CLW ''abc'')\<lparr>bgColor := ''48;2;1;2;3''\<rparr>" "[]" "[Font_strike, Log, Reset]"
        "new_CLW ''abc''" "[[ESC] @ ''[9mabc'' @ [ESC] @ ''[0m'']"] i r
    by (simp add: new_CLW_def)
qed

end
